theory Spec2Isabelle
  imports Complex_Main "HOL-Library.Char_ord" "HOL-Library.List_Lexorder" "HOL-Library.Multiset"
begin

section \<open>Benchmark records and Python values\<close>

text \<open>
  The script \<^verbatim>\<open>utils/plot_baseten_vs_b200.py\<close> works on dictionaries produced by
  \<^verbatim>\<open>json.load\<close>.  The fields it reads hold JSON scalars.  A JSON number is modelled
  as an exact rational: Python's \<^verbatim>\<open>int\<close> and \<^verbatim>\<open>float\<close> compare equal across the
  two types (\<^verbatim>\<open>16 == 16.0\<close>) and hash alike, so one constructor serves both;
  floating-point rounding is not modelled, and the non-finite literals are left out.
  JSON \<^verbatim>\<open>true\<close>/\<^verbatim>\<open>false\<close> behave as the numbers 1 and 0 in every operation used
  here and are represented so.  \<open>JNull\<close> is Python's \<^verbatim>\<open>None\<close>.
\<close>

datatype jval = JNull | JNum rat | JStr string

type_synonym bench_record = "string \<rightharpoonup> jval"

datatype py_error = KeyError | TypeError | ZeroDivisionError | LoadError | DrawError

text \<open>\<^verbatim>\<open>d.get(k, default)\<close>\<close>

definition dict_get :: "bench_record \<Rightarrow> string \<Rightarrow> jval \<Rightarrow> jval" where
  "dict_get d k dflt = (case d k of None \<Rightarrow> dflt | Some v \<Rightarrow> v)"

text \<open>
  Ordering comparisons: numbers compare with numbers, strings with strings (by code
  point, lexicographically); every other pairing raises \<^verbatim>\<open>TypeError\<close>, also
  \<^verbatim>\<open>None < None\<close>.
\<close>

fun py_lt :: "jval \<Rightarrow> jval \<Rightarrow> py_error + bool" where
  "py_lt (JNum a) (JNum b) = Inr (a < b)"
| "py_lt (JStr s) (JStr t) = Inr (s < t)"
| "py_lt _ _ = Inl TypeError"

definition py_gt :: "jval \<Rightarrow> jval \<Rightarrow> py_error + bool" where
  "py_gt a b = py_lt b a"

text \<open>
  True division \<^verbatim>\<open>a / b\<close>: of two numbers; a string or \<^verbatim>\<open>None\<close> operand raises
  \<^verbatim>\<open>TypeError\<close>.
\<close>

fun py_truediv :: "jval \<Rightarrow> jval \<Rightarrow> py_error + jval" where
  "py_truediv (JNum a) (JNum b) = (if b = 0 then Inl ZeroDivisionError else Inr (JNum (a / b)))"
| "py_truediv _ _ = Inl TypeError"

text \<open>
  The product \<^verbatim>\<open>a * b\<close>: of two numbers; a string times an \<^verbatim>\<open>int\<close> (in either order)
  is the string repeated, empty for a factor of zero or below; every other pairing
  raises \<^verbatim>\<open>TypeError\<close>.  The numbers of the model do not keep \<^verbatim>\<open>int\<close> apart from
  \<^verbatim>\<open>float\<close>: a factor with an integral value is taken to be an \<^verbatim>\<open>int\<close> (Python
  refuses a \<^verbatim>\<open>float\<close> factor whatever its value).
\<close>

definition py_repeat :: "string \<Rightarrow> rat \<Rightarrow> py_error + jval" where
  "py_repeat s n =
     (if of_int \<lfloor>n\<rfloor> = n then Inr (JStr (concat (replicate (nat \<lfloor>n\<rfloor>) s)))
      else Inl TypeError)"

fun py_mul :: "jval \<Rightarrow> jval \<Rightarrow> py_error + jval" where
  "py_mul (JNum a) (JNum b) = Inr (JNum (a * b))"
| "py_mul (JStr s) (JNum n) = py_repeat s n"
| "py_mul (JNum n) (JStr s) = py_repeat s n"
| "py_mul _ _ = Inl TypeError"

text \<open>
  \<^verbatim>\<open>sorted(xs, key=...)\<close> and \<^verbatim>\<open>list.sort(key=...)\<close>: a stable sort that only asks
  \<^verbatim>\<open><\<close> of the keys.  With two or more elements it raises \<^verbatim>\<open>TypeError\<close> exactly
  when some keys are not mutually comparable; the stable insertion sort below does the
  same.
\<close>

fun py_insort :: "('a \<Rightarrow> jval) \<Rightarrow> 'a \<Rightarrow> 'a list \<Rightarrow> py_error + 'a list" where
  "py_insort key x [] = Inr [x]"
| "py_insort key x (y # ys) =
     (case py_lt (key y) (key x) of
        Inl e \<Rightarrow> Inl e
      | Inr False \<Rightarrow> Inr (x # y # ys)
      | Inr True \<Rightarrow> (case py_insort key x ys of Inl e \<Rightarrow> Inl e | Inr zs \<Rightarrow> Inr (y # zs)))"

fun py_sorted :: "('a \<Rightarrow> jval) \<Rightarrow> 'a list \<Rightarrow> py_error + 'a list" where
  "py_sorted key [] = Inr []"
| "py_sorted key (x # xs) =
     (case py_sorted key xs of Inl e \<Rightarrow> Inl e | Inr ys \<Rightarrow> py_insort key x ys)"

text \<open>
  A Python \<^verbatim>\<open>dict\<close> keeps its keys in insertion order; assigning to a key that is
  already there keeps the key's position.
\<close>

fun dict_set :: "('k \<times> 'v) list \<Rightarrow> 'k \<Rightarrow> 'v \<Rightarrow> ('k \<times> 'v) list" where
  "dict_set [] k v = [(k, v)]"
| "dict_set ((k', v') # kvs) k v =
     (if k' = k then (k', v) # kvs else (k', v') # dict_set kvs k v)"

section \<open>Result Loader A: \<^verbatim>\<open>load_baseten_results\<close>\<close>

text \<open>
  \<^verbatim>\<open>re.search(r'conc(\d+)', stem)\<close>: the leftmost position where \<^verbatim>\<open>conc\<close> is followed
  by at least one digit; the group is the longest run of digits there.  File names are
  taken to be ASCII.
\<close>

definition is_digit :: "char \<Rightarrow> bool" where
  "is_digit c = (c \<in> set ''0123456789'')"

definition match_conc :: "string \<Rightarrow> string option" where
  "match_conc s =
     (if take 4 s = ''conc'' \<and> takeWhile is_digit (drop 4 s) \<noteq> []
      then Some (takeWhile is_digit (drop 4 s)) else None)"

fun re_search_conc :: "string \<Rightarrow> string option" where
  "re_search_conc [] = None"
| "re_search_conc (c # cs) =
     (case match_conc (c # cs) of Some ds \<Rightarrow> Some ds | None \<Rightarrow> re_search_conc cs)"

text \<open>\<^verbatim>\<open>int(digits)\<close>\<close>

definition int_of_digits :: "string \<Rightarrow> int" where
  "int_of_digits ds = foldl (\<lambda>n c. 10 * n + (of_char c - 48)) 0 ds"

text \<open>
  Lines 29--35: the concurrency of one parsed file, \<open>JNull\<close> when neither the field
  nor the file name gives one.
\<close>

definition resolve_conc :: "string \<Rightarrow> bench_record \<Rightarrow> jval" where
  "resolve_conc stem result =
     (let conc = dict_get result ''max_concurrency'' JNull in
      if conc = JNull then
        (case re_search_conc stem of
           Some ds \<Rightarrow> JNum (of_int (int_of_digits ds))
         | None \<Rightarrow> JNull)
      else conc)"

text \<open>
  The loop over \<^verbatim>\<open>Path(results_dir).glob("*.json")\<close>.  A directory entry is the file's
  stem and what reading it gives: \<open>None\<close> when opening or parsing raises or the
  document is not an object (the \<^verbatim>\<open>except\<close> branch prints a warning and goes on).
\<close>

fun load_files :: "(string \<times> bench_record option) list \<Rightarrow> bench_record list" where
  "load_files [] = []"
| "load_files ((stem, None) # fs) = load_files fs"
| "load_files ((stem, Some result) # fs) =
     (let conc = resolve_conc stem result in
      if conc \<noteq> JNull then (result(''concurrency'' \<mapsto> conc)) # load_files fs
      else load_files fs)"

definition load_baseten_results ::
  "(string \<times> bench_record option) list \<Rightarrow> py_error + bench_record list" where
  "load_baseten_results files =
     py_sorted (\<lambda>x. dict_get x ''concurrency'' (JNum 0)) (load_files files)"

section \<open>Result Loader B: \<^verbatim>\<open>load_b200_trt_results\<close>\<close>

definition is_b200_trt :: "bench_record \<Rightarrow> bool" where
  "is_b200_trt r =
     (dict_get r ''hw'' JNull = JStr ''b200-trt'' \<or> dict_get r ''hw'' JNull = JStr ''b200-nvs'' \<or>
      (dict_get r ''hw'' JNull = JStr ''b200'' \<and> dict_get r ''framework'' JNull = JStr ''trt''))"

text \<open>
  One round of the selection loop (lines 66--79).  \<^verbatim>\<open>best_by_conc[conc]['tput_per_gpu']\<close>
  is a subscript, not a \<^verbatim>\<open>get\<close>: it raises \<^verbatim>\<open>KeyError\<close> when the current best has no
  such field.  The \<^verbatim>\<open>and\<close> evaluates its right operand only when the left one holds.
\<close>

definition select_step ::
  "(jval \<times> bench_record) list \<Rightarrow> bench_record \<Rightarrow> py_error + (jval \<times> bench_record) list" where
  "select_step best_by_conc r =
     (let conc = dict_get r ''conc'' (JNum 0);
          tp = dict_get r ''tp'' (JNum 0);
          tput_per_gpu = dict_get r ''tput_per_gpu'' (JNum 0)
      in case map_of best_by_conc conc of
           None \<Rightarrow> Inr (dict_set best_by_conc conc r)
         | Some cur \<Rightarrow>
             if tp = JNum 8 then Inr (dict_set best_by_conc conc r)
             else if dict_get cur ''tp'' (JNum 0) \<noteq> JNum 8 then
               (case cur ''tput_per_gpu'' of
                  None \<Rightarrow> Inl KeyError
                | Some cur_tput \<Rightarrow>
                    (case py_gt tput_per_gpu cur_tput of
                       Inl e \<Rightarrow> Inl e
                     | Inr True \<Rightarrow> Inr (dict_set best_by_conc conc r)
                     | Inr False \<Rightarrow> Inr best_by_conc))
             else Inr best_by_conc)"

fun select_loop ::
  "(jval \<times> bench_record) list \<Rightarrow> bench_record list \<Rightarrow> py_error + (jval \<times> bench_record) list" where
  "select_loop best_by_conc [] = Inr best_by_conc"
| "select_loop best_by_conc (r # rs) =
     (case select_step best_by_conc r of
        Inl e \<Rightarrow> Inl e
      | Inr best' \<Rightarrow> select_loop best' rs)"

text \<open>
  The argument is what \<^verbatim>\<open>json.load\<close> gives for the file: \<open>None\<close> when the file cannot
  be read as an array of objects (the exception leaves the function).
\<close>

definition load_b200_trt_results ::
  "bench_record list option \<Rightarrow> py_error + (bench_record list \<times> bench_record list)" where
  "load_b200_trt_results json_file =
     (case json_file of
        None \<Rightarrow> Inl LoadError
      | Some all_data \<Rightarrow>
          (let b200_trt = filter is_b200_trt all_data in
           case select_loop [] b200_trt of
             Inl e \<Rightarrow> Inl e
           | Inr best_by_conc \<Rightarrow>
               (case py_sorted (\<lambda>x. dict_get x ''conc'' (JNum 0)) (map snd best_by_conc) of
                  Inl e \<Rightarrow> Inl e
                | Inr best \<Rightarrow> Inr (best, b200_trt))))"

section \<open>Normalizer: the series built by \<^verbatim>\<open>plot_comparison\<close>\<close>

text \<open>
  The source appends to parallel lists (\<^verbatim>\<open>b200_concs\<close>, \<^verbatim>\<open>b200_tputs\<close>,
  \<^verbatim>\<open>b200_e2els\<close>, \<^verbatim>\<open>b200_labels\<close>); a point below is one row of them.  The label
  keeps which of the two f-strings was chosen and the degree printed in it.
\<close>

datatype label = PerGPU jval | Total jval

record b200_point =
  b_conc :: jval
  b_tput :: jval
  b_e2el :: jval
  b_label :: label

record baseten_point =
  a_conc :: jval
  a_tput :: jval
  a_e2el :: jval

text \<open>Lines 101--121: one round of the loop over \<^verbatim>\<open>b200_best\<close>.\<close>

definition b200_row :: "bench_record \<Rightarrow> py_error + b200_point" where
  "b200_row r =
     (let conc = dict_get r ''conc'' (JNum 0);
          tput_per_gpu = dict_get r ''tput_per_gpu'' (JNum 0);
          e2el = dict_get r ''median_e2el'' (JNum 0);
          tp = dict_get r ''tp'' (JNum 0)
      in if tp = JNum 8
         then Inr \<lparr>b_conc = conc, b_tput = tput_per_gpu, b_e2el = e2el, b_label = PerGPU tp\<rparr>
         else (case py_mul tput_per_gpu tp of
                 Inl e \<Rightarrow> Inl e
               | Inr tput_value \<Rightarrow>
                   Inr \<lparr>b_conc = conc, b_tput = tput_value, b_e2el = e2el, b_label = Total tp\<rparr>))"

fun b200_rows :: "bench_record list \<Rightarrow> py_error + b200_point list" where
  "b200_rows [] = Inr []"
| "b200_rows (r # rs) =
     (case b200_row r of
        Inl e \<Rightarrow> Inl e
      | Inr p \<Rightarrow> (case b200_rows rs of Inl e \<Rightarrow> Inl e | Inr ps \<Rightarrow> Inr (p # ps)))"

text \<open>
  Lines 134--138: the condition of the reliability filter, \<open>True\<close> when the record
  is skipped.  \<^verbatim>\<open>or\<close> and \<^verbatim>\<open>and\<close> stop at the first operand that decides.
\<close>

definition unreliable :: "bench_record \<Rightarrow> py_error + bool" where
  "unreliable result =
     (let completed = dict_get result ''completed'' (JNum 0);
          total_requests =
            dict_get result ''total_requests'' (dict_get result ''num_prompts'' completed)
      in case py_lt completed (JNum 10) of
           Inl e \<Rightarrow> Inl e
         | Inr True \<Rightarrow> Inr True
         | Inr False \<Rightarrow>
             (case py_gt total_requests (JNum 0) of
                Inl e \<Rightarrow> Inl e
              | Inr False \<Rightarrow> Inr False
              | Inr True \<Rightarrow>
                  (case py_truediv completed total_requests of
                     Inl e \<Rightarrow> Inl e
                   | Inr ratio \<Rightarrow> py_lt ratio (JNum (1 / 2)))))"

text \<open>
  Lines 148--152: the degree of the first record of \<^verbatim>\<open>b200_best\<close> at this concurrency,
  \<open>JNull\<close> (the initial \<^verbatim>\<open>None\<close>) when there is none.
\<close>

fun b200_tp_at_conc :: "bench_record list \<Rightarrow> jval \<Rightarrow> jval" where
  "b200_tp_at_conc [] conc = JNull"
| "b200_tp_at_conc (r # rs) conc =
     (if dict_get r ''conc'' (JNum 0) = conc then dict_get r ''tp'' (JNum 0)
      else b200_tp_at_conc rs conc)"

definition BASETEN_GPU_COUNT :: rat where
  "BASETEN_GPU_COUNT = 8"

text \<open>
  Lines 128--162: one round of the loop over \<^verbatim>\<open>baseten_results\<close>; \<open>None\<close> is a
  \<^verbatim>\<open>continue\<close>.
\<close>

definition baseten_row :: "bench_record list \<Rightarrow> bench_record \<Rightarrow> py_error + baseten_point option" where
  "baseten_row b200_best result =
     (let conc = dict_get result ''concurrency'' (JNum 0) in
      if conc = JNum 0 then Inr None
      else case unreliable result of
             Inl e \<Rightarrow> Inl e
           | Inr True \<Rightarrow> Inr None
           | Inr False \<Rightarrow>
               (let total_tput = dict_get result ''total_token_throughput'' (JNum 0) in
                case py_truediv (dict_get result ''median_e2el_ms'' (JNum 0)) (JNum 1000) of
                  Inl e \<Rightarrow> Inl e
                | Inr e2el \<Rightarrow>
                    if b200_tp_at_conc b200_best conc = JNum 8
                    then (case py_truediv total_tput (JNum BASETEN_GPU_COUNT) of
                            Inl e \<Rightarrow> Inl e
                          | Inr tput_value \<Rightarrow>
                              Inr (Some \<lparr>a_conc = conc, a_tput = tput_value, a_e2el = e2el\<rparr>))
                    else Inr (Some \<lparr>a_conc = conc, a_tput = total_tput, a_e2el = e2el\<rparr>)))"

fun baseten_rows :: "bench_record list \<Rightarrow> bench_record list \<Rightarrow> py_error + baseten_point list" where
  "baseten_rows b200_best [] = Inr []"
| "baseten_rows b200_best (result # rest) =
     (case baseten_row b200_best result of
        Inl e \<Rightarrow> Inl e
      | Inr None \<Rightarrow> baseten_rows b200_best rest
      | Inr (Some p) \<Rightarrow>
          (case baseten_rows b200_best rest of Inl e \<Rightarrow> Inl e | Inr ps \<Rightarrow> Inr (p # ps)))"

text \<open>
  What the function does once the series are built (the matplotlib calls, the points
  put in order for the trend line, the axis limits, the file written) decides nothing
  about the series and is a parameter: it receives the series and says whether it
  raised.
\<close>

record clean_chart =
  cc_b200 :: "b200_point list"
  cc_baseten :: "baseten_point list"

definition plot_comparison ::
  "(clean_chart \<Rightarrow> py_error option) \<Rightarrow> bench_record list \<Rightarrow> bench_record list \<Rightarrow>
   bench_record list \<Rightarrow> py_error + clean_chart" where
  "plot_comparison draw baseten_results b200_best b200_all =
     (case b200_rows b200_best of
        Inl e \<Rightarrow> Inl e
      | Inr bs \<Rightarrow>
          (case baseten_rows b200_best baseten_results of
             Inl e \<Rightarrow> Inl e
           | Inr as \<Rightarrow>
               (let chart = \<lparr>cc_b200 = bs, cc_baseten = as\<rparr> in
                case draw chart of Some e \<Rightarrow> Inl e | None \<Rightarrow> Inr chart)))"

section \<open>The series built by \<^verbatim>\<open>plot_comparison_with_all_b200_configs\<close>\<close>

text \<open>
  Lines 244--253 and 312--315: every record of \<^verbatim>\<open>b200_all\<close>, and then every record of
  \<^verbatim>\<open>b200_best\<close>, gives the row (latency, \<^verbatim>\<open>tput_per_gpu\<close>, concurrency, degree).
\<close>

record detail_point =
  d_e2el :: jval
  d_tput :: jval
  d_conc :: jval
  d_tp :: jval

definition detail_row :: "bench_record \<Rightarrow> detail_point" where
  "detail_row r =
     \<lparr>d_e2el = dict_get r ''median_e2el'' (JNum 0),
      d_tput = dict_get r ''tput_per_gpu'' (JNum 0),
      d_conc = dict_get r ''conc'' (JNum 0),
      d_tp = dict_get r ''tp'' (JNum 0)\<rparr>"

record detailed_chart =
  dc_all :: "detail_point list"
  dc_best :: "detail_point list"
  dc_baseten :: "baseten_point list"

text \<open>The highlighted best points are drawn inside \<^verbatim>\<open>if b200_all_tputs:\<close>.\<close>

definition plot_comparison_with_all_b200_configs ::
  "(detailed_chart \<Rightarrow> py_error option) \<Rightarrow> bench_record list \<Rightarrow> bench_record list \<Rightarrow>
   bench_record list \<Rightarrow> py_error + detailed_chart" where
  "plot_comparison_with_all_b200_configs draw baseten_results b200_best b200_all =
     (let b200_all_rows = map detail_row b200_all in
      case baseten_rows b200_best baseten_results of
        Inl e \<Rightarrow> Inl e
      | Inr as \<Rightarrow>
          (let chart = \<lparr>dc_all = b200_all_rows,
                        dc_best = (if b200_all_rows \<noteq> [] then map detail_row b200_best else []),
                        dc_baseten = as\<rparr> in
           case draw chart of Some e \<Rightarrow> Inl e | None \<Rightarrow> Inr chart))"

section \<open>\<^verbatim>\<open>main\<close>\<close>

text \<open>
  What a path names: nothing, a directory with the \<^verbatim>\<open>*.json\<close> files in it (stem and
  content, in the order \<^verbatim>\<open>glob\<close> yields them), or a file with what \<^verbatim>\<open>json.load\<close>
  makes of it.
\<close>

datatype fs_entry =
    Missing
  | Dir "(string \<times> bench_record option) list"
  | File "bench_record list option"

text \<open>\<^verbatim>\<open>glob\<close> on a path that is not a directory yields nothing.\<close>

fun glob_json :: "fs_entry \<Rightarrow> (string \<times> bench_record option) list" where
  "glob_json (Dir files) = files"
| "glob_json _ = []"

text \<open>\<^verbatim>\<open>open\<close> on a directory raises.\<close>

fun read_json :: "fs_entry \<Rightarrow> bench_record list option" where
  "read_json (File content) = content"
| "read_json _ = None"

datatype outcome = Returned | SysExit nat | Uncaught py_error

text \<open>The status the interpreter exits with: 1 after an exception nobody caught.\<close>

fun exit_status :: "outcome \<Rightarrow> nat" where
  "exit_status Returned = 0"
| "exit_status (SysExit n) = n"
| "exit_status (Uncaught e) = 1"

definition main ::
  "(clean_chart \<Rightarrow> py_error option) \<Rightarrow> (detailed_chart \<Rightarrow> py_error option) \<Rightarrow>
   (string \<Rightarrow> fs_entry) \<Rightarrow> string list \<Rightarrow> outcome" where
  "main draw_clean draw_detailed fs argv =
     (if length argv < 3 then SysExit 1
      else
        let baseten_dir = argv ! 1; inferencemax_json = argv ! 2 in
        if fs baseten_dir = Missing then SysExit 1
        else if fs inferencemax_json = Missing then SysExit 1
        else
          case load_baseten_results (glob_json (fs baseten_dir)) of
            Inl e \<Rightarrow> Uncaught e
          | Inr baseten_results \<Rightarrow>
              (case load_b200_trt_results (read_json (fs inferencemax_json)) of
                 Inl e \<Rightarrow> Uncaught e
               | Inr (b200_best, b200_all) \<Rightarrow>
                   if baseten_results = [] then SysExit 1
                   else if b200_best = [] then SysExit 1
                   else
                     (case plot_comparison draw_clean baseten_results b200_best b200_all of
                        Inl e \<Rightarrow> Uncaught e
                      | Inr _ \<Rightarrow>
                          (case plot_comparison_with_all_b200_configs draw_detailed
                                  baseten_results b200_best b200_all of
                             Inl e \<Rightarrow> Uncaught e
                           | Inr _ \<Rightarrow> Returned))))"

section \<open>Notions used in the proofs\<close>

text \<open>\<^verbatim>\<open>a <= b\<close> as the sort sees it: \<^verbatim>\<open>b < a\<close> is answered, with no.\<close>

definition py_le :: "jval \<Rightarrow> jval \<Rightarrow> bool" where
  "py_le a b = (py_lt b a = Inr False)"

text \<open>
  The selection loop's invariant: the dictionary has each key once, and files each
  record under its own concurrency.
\<close>

definition keyed :: "(jval \<times> bench_record) list \<Rightarrow> bool" where
  "keyed best = (distinct (map fst best) \<and> (\<forall>(k, r) \<in> set best. dict_get r ''conc'' (JNum 0) = k))"

text \<open>A record whose \<^verbatim>\<open>tput_per_gpu\<close> is there and is a number.\<close>

definition has_tput :: "bench_record \<Rightarrow> bool" where
  "has_tput r = (\<exists>q. r ''tput_per_gpu'' = Some (JNum q))"

text \<open>
  A Series-A record whose fields read by the loop of the chart functions are numbers.
\<close>

definition numeric_run :: "bench_record \<Rightarrow> bool" where
  "numeric_run r =
     ((\<exists>c t. dict_get r ''completed'' (JNum 0) = JNum c \<and>
             dict_get r ''total_requests'' (dict_get r ''num_prompts'' (JNum c)) = JNum t) \<and>
      (\<exists>q. dict_get r ''total_token_throughput'' (JNum 0) = JNum q) \<and>
      (\<exists>ms. dict_get r ''median_e2el_ms'' (JNum 0) = JNum ms))"

section \<open>Example inputs\<close>

text \<open>Records of the aggregated file (Series B).\<close>

definition tp2_conc16 :: bench_record where
  "tp2_conc16 = [''hw'' \<mapsto> JStr ''b200-trt'', ''conc'' \<mapsto> JNum 16, ''tp'' \<mapsto> JNum 2,
                 ''tput_per_gpu'' \<mapsto> JNum 500, ''median_e2el'' \<mapsto> JNum 3]"

definition tp8_conc16 :: bench_record where
  "tp8_conc16 = [''hw'' \<mapsto> JStr ''b200-trt'', ''conc'' \<mapsto> JNum 16, ''tp'' \<mapsto> JNum 8,
                 ''tput_per_gpu'' \<mapsto> JNum 400, ''median_e2el'' \<mapsto> JNum 4]"

definition tp8_conc16_later :: bench_record where
  "tp8_conc16_later = [''hw'' \<mapsto> JStr ''b200-nvs'', ''conc'' \<mapsto> JNum 16, ''tp'' \<mapsto> JNum 8,
                       ''tput_per_gpu'' \<mapsto> JNum 300, ''median_e2el'' \<mapsto> JNum 5]"

definition tp2_conc32 :: bench_record where
  "tp2_conc32 = [''hw'' \<mapsto> JStr ''b200'', ''framework'' \<mapsto> JStr ''trt'', ''conc'' \<mapsto> JNum 32,
                 ''tp'' \<mapsto> JNum 2, ''tput_per_gpu'' \<mapsto> JNum 300, ''median_e2el'' \<mapsto> JNum 6]"

definition tp1_conc64 :: bench_record where
  "tp1_conc64 = [''hw'' \<mapsto> JStr ''b200-trt'', ''conc'' \<mapsto> JNum 64, ''tp'' \<mapsto> JNum 1,
                 ''tput_per_gpu'' \<mapsto> JNum 300, ''median_e2el'' \<mapsto> JNum 7]"

definition h100_conc16 :: bench_record where
  "h100_conc16 = [''hw'' \<mapsto> JStr ''h100'', ''conc'' \<mapsto> JNum 16, ''tp'' \<mapsto> JNum 8,
                  ''tput_per_gpu'' \<mapsto> JNum 900, ''median_e2el'' \<mapsto> JNum 2]"

text \<open>Parsed files of the results directory (Series A), before and after loading.\<close>

definition run_with_field :: bench_record where
  "run_with_field = [''max_concurrency'' \<mapsto> JNum 16, ''completed'' \<mapsto> JNum 60,
                     ''total_requests'' \<mapsto> JNum 100, ''total_token_throughput'' \<mapsto> JNum 3200,
                     ''median_e2el_ms'' \<mapsto> JNum 2000]"

definition run_without_field :: bench_record where
  "run_without_field = [''completed'' \<mapsto> JNum 20, ''total_token_throughput'' \<mapsto> JNum 1600,
                        ''median_e2el_ms'' \<mapsto> JNum 1000]"

definition run_low_completion :: bench_record where
  "run_low_completion = [''max_concurrency'' \<mapsto> JNum 16, ''completed'' \<mapsto> JNum 5,
                         ''total_requests'' \<mapsto> JNum 100, ''total_token_throughput'' \<mapsto> JNum 3200,
                         ''median_e2el_ms'' \<mapsto> JNum 2000]"

definition run_5_of_100 :: bench_record where
  "run_5_of_100 = [''completed'' \<mapsto> JNum 5, ''total_requests'' \<mapsto> JNum 100]"

definition run_10_of_100 :: bench_record where
  "run_10_of_100 = [''completed'' \<mapsto> JNum 10, ''total_requests'' \<mapsto> JNum 100]"

definition run_60_of_100 :: bench_record where
  "run_60_of_100 = [''completed'' \<mapsto> JNum 60, ''total_requests'' \<mapsto> JNum 100]"

definition run_20_no_total :: bench_record where
  "run_20_no_total = [''completed'' \<mapsto> JNum 20]"

definition run_20_of_0 :: bench_record where
  "run_20_of_0 = [''completed'' \<mapsto> JNum 20, ''num_prompts'' \<mapsto> JNum 0]"

definition run_zero_conc :: bench_record where
  "run_zero_conc = [''max_concurrency'' \<mapsto> JNum 0, ''completed'' \<mapsto> JNum 60,
                    ''total_requests'' \<mapsto> JNum 100]"

definition four_runs :: "bench_record list" where
  "four_runs = [run_5_of_100(''concurrency'' \<mapsto> JNum 4), run_10_of_100(''concurrency'' \<mapsto> JNum 8),
                run_60_of_100(''concurrency'' \<mapsto> JNum 16), run_20_no_total(''concurrency'' \<mapsto> JNum 32)]"

definition baseten_conc16 :: bench_record where
  "baseten_conc16 = run_with_field(''concurrency'' \<mapsto> JNum 16)"

definition baseten_negative_total :: bench_record where
  "baseten_negative_total = [''concurrency'' \<mapsto> JNum 16, ''completed'' \<mapsto> JNum 20,
                             ''total_requests'' \<mapsto> JNum (- 100)]"

text \<open>A drawing that raises nothing, and a file system with both inputs in place.\<close>

definition drawn_clean :: "clean_chart \<Rightarrow> py_error option" where
  "drawn_clean chart = None"

definition drawn_detailed :: "detailed_chart \<Rightarrow> py_error option" where
  "drawn_detailed chart = None"

definition fs_low_completion :: "string \<Rightarrow> fs_entry" where
  "fs_low_completion path =
     (if path = ''results'' then Dir [(''run_a'', Some run_low_completion)]
      else if path = ''agg.json'' then File (Some [tp8_conc16])
      else Missing)"

definition fs_good :: "string \<Rightarrow> fs_entry" where
  "fs_good path =
     (if path = ''results'' then Dir [(''run_a'', Some run_with_field)]
      else if path = ''agg.json'' then File (Some [tp8_conc16])
      else Missing)"

definition argv_example :: "string list" where
  "argv_example = [''plot_baseten_vs_b200.py'', ''results'', ''agg.json'']"

section \<open>Auxiliary facts\<close>

subsection \<open>The insertion-ordered dictionary\<close>

lemma map_of_dict_set: "map_of (dict_set kvs k v) = (map_of kvs)(k \<mapsto> v)"
  by (induction kvs) (auto simp: fun_eq_iff)

lemma keys_dict_set:
  "map fst (dict_set kvs k v) = (if k \<in> fst ` set kvs then map fst kvs else map fst kvs @ [k])"
  by (induction kvs) force+

lemma distinct_dict_set: "distinct (map fst kvs) \<Longrightarrow> distinct (map fst (dict_set kvs k v))"
  by (simp add: keys_dict_set)

lemma set_dict_set: "set (dict_set kvs k v) \<subseteq> insert (k, v) (set kvs)"
  by (induction kvs) (auto split: if_splits)

subsection \<open>Sorting with Python's comparison\<close>

lemma py_le_trans: "py_le a b \<Longrightarrow> py_le b c \<Longrightarrow> py_le a c"
  unfolding py_le_def by (cases a; cases b; cases c) auto

lemma py_lt_le: "py_lt a b = Inr True \<Longrightarrow> py_le a b"
  unfolding py_le_def by (cases a; cases b) auto

lemma py_le_neq_lt: "py_le a b \<Longrightarrow> a \<noteq> b \<Longrightarrow> py_lt a b = Inr True"
  unfolding py_le_def by (cases a; cases b) auto

lemma py_insort_mset: "py_insort key x ys = Inr zs \<Longrightarrow> mset zs = add_mset x (mset ys)"
  by (induction ys arbitrary: zs) (auto split: sum.splits bool.splits)

lemma py_sorted_mset: "py_sorted key xs = Inr ys \<Longrightarrow> mset ys = mset xs"
  by (induction xs arbitrary: ys) (auto split: sum.splits dest: py_insort_mset)

lemma py_insort_sorted:
  "py_insort key x ys = Inr zs \<Longrightarrow> sorted_wrt (\<lambda>a b. py_le (key a) (key b)) ys \<Longrightarrow>
   sorted_wrt (\<lambda>a b. py_le (key a) (key b)) zs"
proof (induction ys arbitrary: zs)
  case Nil
  then show ?case by auto
next
  case (Cons y ys)
  show ?case
  proof (cases "py_lt (key y) (key x)")
    case (Inl e)
    with Cons.prems show ?thesis by simp
  next
    case (Inr b)
    show ?thesis
    proof (cases b)
      case True
      with Inr Cons.prems obtain zs' where zs': "py_insort key x ys = Inr zs'" "zs = y # zs'"
        by (auto split: sum.splits)
      have "set zs' = insert x (set ys)"
        using py_insort_mset [OF zs'(1)] by (metis set_mset_add_mset_insert set_mset_mset)
      moreover have "py_le (key y) (key x)" using Inr True by (simp add: py_lt_le)
      ultimately show ?thesis using Cons.IH [OF zs'(1)] Cons.prems(2) zs'(2) by auto
    next
      case False
      with Inr Cons.prems have zs: "zs = x # y # ys" by simp
      have xy: "py_le (key x) (key y)" using Inr False by (simp add: py_le_def)
      have "\<forall>z \<in> set ys. py_le (key x) (key z)"
        using Cons.prems(2) xy by (auto intro: py_le_trans)
      then show ?thesis using zs xy Cons.prems(2) by simp
    qed
  qed
qed

lemma py_sorted_sorted:
  "py_sorted key xs = Inr ys \<Longrightarrow> sorted_wrt (\<lambda>a b. py_le (key a) (key b)) ys"
  by (induction xs arbitrary: ys) (auto split: sum.splits dest: py_insort_sorted)

lemma sorted_wrt_strict:
  "sorted_wrt (\<lambda>a b. py_le (key a) (key b)) xs \<Longrightarrow> distinct (map key xs) \<Longrightarrow>
   sorted_wrt (\<lambda>a b. py_lt (key a) (key b) = Inr True) xs"
  by (induction xs) (auto intro: py_le_neq_lt)

subsection \<open>The selection loop\<close>

lemma keyed_dict_set:
  "keyed best \<Longrightarrow> dict_get r ''conc'' (JNum 0) = k \<Longrightarrow> keyed (dict_set best k r)"
  unfolding keyed_def using set_dict_set [of best k r] by (auto simp: distinct_dict_set)

lemma select_step_cases:
  "select_step best r = Inr best' \<Longrightarrow>
     best' = best \<or> best' = dict_set best (dict_get r ''conc'' (JNum 0)) r"
  by (auto simp: select_step_def Let_def split: option.splits if_splits sum.splits bool.splits)

lemma keyed_select_step: "keyed best \<Longrightarrow> select_step best r = Inr best' \<Longrightarrow> keyed best'"
  using select_step_cases keyed_dict_set by blast

lemma keyed_select_loop: "keyed best \<Longrightarrow> select_loop best rs = Inr best' \<Longrightarrow> keyed best'"
  by (induction rs arbitrary: best) (auto split: sum.splits dest: keyed_select_step)

lemma best_keys:
  "keyed best \<Longrightarrow> map (\<lambda>r. dict_get r ''conc'' (JNum 0)) (map snd best) = map fst best"
  unfolding keyed_def by (induction best) auto

lemma select_step_keeps_tp8:
  assumes "map_of best c = Some cur" and "dict_get cur ''tp'' (JNum 0) = JNum 8"
    and "select_step best r = Inr best'"
  shows "map_of best' c =
         Some (if dict_get r ''conc'' (JNum 0) = c \<and> dict_get r ''tp'' (JNum 0) = JNum 8
               then r else cur)"
proof (cases "dict_get r ''conc'' (JNum 0) = c")
  case True
  with assms show ?thesis
    by (auto simp: select_step_def Let_def map_of_dict_set split: if_splits)
next
  case False
  with assms show ?thesis
    by (auto simp: select_step_def Let_def map_of_dict_set
             split: option.splits if_splits sum.splits bool.splits)
qed

lemma vals_dict_set: "snd ` set (dict_set kvs k v) \<subseteq> insert v (snd ` set kvs)"
  using set_dict_set [of kvs k v] by force

lemma select_step_returns:
  assumes "\<forall>v \<in> snd ` set best. has_tput v" and "has_tput r"
  shows "\<exists>best'. select_step best r = Inr best' \<and> (\<forall>v \<in> snd ` set best'. has_tput v) \<and>
                  snd ` set best' \<subseteq> insert r (snd ` set best)"
proof (cases "map_of best (dict_get r ''conc'' (JNum 0))")
  case None
  then have "select_step best r = Inr (dict_set best (dict_get r ''conc'' (JNum 0)) r)"
    by (simp add: select_step_def Let_def)
  then show ?thesis using assms vals_dict_set [of best "dict_get r ''conc'' (JNum 0)" r] by blast
next
  case (Some cur)
  then have "cur \<in> snd ` set best" by (force dest: map_of_SomeD)
  with assms obtain a b where
    ab: "cur ''tput_per_gpu'' = Some (JNum a)" "r ''tput_per_gpu'' = Some (JNum b)"
    by (auto simp: has_tput_def)
  then have "dict_get r ''tput_per_gpu'' (JNum 0) = JNum b" by (simp add: dict_get_def)
  with ab(1) Some have "select_step best r = Inr best \<or>
             select_step best r = Inr (dict_set best (dict_get r ''conc'' (JNum 0)) r)"
    by (simp add: select_step_def Let_def py_gt_def split: bool.splits)
  then show ?thesis using assms vals_dict_set [of best "dict_get r ''conc'' (JNum 0)" r] by blast
qed

lemma select_loop_returns:
  assumes "\<forall>v \<in> snd ` set best. has_tput v" and "\<forall>r \<in> set rs. has_tput r"
  shows "\<exists>best'. select_loop best rs = Inr best' \<and> snd ` set best' \<subseteq> snd ` set best \<union> set rs"
  using assms
proof (induction rs arbitrary: best)
  case Nil
  then show ?case by simp
next
  case (Cons r rs)
  from select_step_returns [of best r] Cons.prems obtain mid where
    mid: "select_step best r = Inr mid" "\<forall>v \<in> snd ` set mid. has_tput v"
         "snd ` set mid \<subseteq> insert r (snd ` set best)"
    by auto
  from Cons.IH [OF mid(2)] Cons.prems(2) obtain best' where
    rest: "select_loop mid rs = Inr best'" "snd ` set best' \<subseteq> snd ` set mid \<union> set rs"
    by auto
  from rest(2) mid(3) have "snd ` set best' \<subseteq> snd ` set best \<union> set (r # rs)" by auto
  with mid(1) rest(1) show ?case by simp
qed

lemma py_insort_returns:
  assumes "\<exists>n. key x = JNum n" and "\<forall>y \<in> set ys. \<exists>n. key y = JNum n"
  shows "\<exists>zs. py_insort key x ys = Inr zs"
  using assms by (induction ys) (auto split: sum.splits bool.splits)

lemma py_sorted_returns:
  assumes "\<forall>x \<in> set xs. \<exists>n. key x = JNum n"
  shows "\<exists>ys. py_sorted key xs = Inr ys"
  using assms
proof (induction xs)
  case Nil
  then show ?case by simp
next
  case (Cons x xs)
  then obtain ys where ys: "py_sorted key xs = Inr ys" by auto
  have "set ys = set xs" using py_sorted_mset [OF ys] by (metis set_mset_mset)
  with Cons.prems have "\<exists>zs. py_insort key x ys = Inr zs"
    by (intro py_insort_returns) auto
  with ys show ?case by auto
qed

subsection \<open>The reliability filter and the rows\<close>

lemma py_lt_no_zero_division: "py_lt a b \<noteq> Inl ZeroDivisionError"
  by (cases a; cases b) auto

lemma py_truediv_positive: "py_lt (JNum 0) b = Inr True \<Longrightarrow> py_truediv a b \<noteq> Inl ZeroDivisionError"
  by (cases a; cases b) auto

lemma py_truediv_nonzero: "d \<noteq> 0 \<Longrightarrow> py_truediv a (JNum d) \<noteq> Inl ZeroDivisionError"
  by (cases a) auto

lemma unreliable_no_zero_division: "unreliable result \<noteq> Inl ZeroDivisionError"
  using py_lt_no_zero_division py_truediv_positive
  by (auto simp: unreliable_def Let_def py_gt_def split: sum.splits bool.splits)

lemma baseten_row_no_zero_division: "baseten_row b200_best result \<noteq> Inl ZeroDivisionError"
  using unreliable_no_zero_division [of result]
    py_truediv_nonzero [of 1000 "dict_get result ''median_e2el_ms'' (JNum 0)"]
    py_truediv_nonzero [of BASETEN_GPU_COUNT "dict_get result ''total_token_throughput'' (JNum 0)"]
  by (auto simp: baseten_row_def Let_def BASETEN_GPU_COUNT_def split: sum.splits bool.splits)

lemma baseten_rows_no_zero_division: "baseten_rows b200_best results \<noteq> Inl ZeroDivisionError"
  using baseten_row_no_zero_division
  by (induction results) (auto split: sum.splits option.splits)

lemma unreliable_numbers:
  assumes "dict_get result ''completed'' (JNum 0) = JNum c"
    and "dict_get result ''total_requests'' (dict_get result ''num_prompts'' (JNum c)) = JNum t"
  shows "unreliable result = Inr (c < 10 \<or> (0 < t \<and> c / t < 1 / 2))"
  using assms by (auto simp: unreliable_def Let_def py_gt_def split: bool.splits)

lemma baseten_row_None:
  "(baseten_row b200_best result = Inr None) =
   (dict_get result ''concurrency'' (JNum 0) = JNum 0 \<or> unreliable result = Inr True)"
  by (auto simp: baseten_row_def Let_def split: sum.splits bool.splits)

lemma baseten_row_Some:
  "baseten_row b200_best result = Inr (Some p) \<Longrightarrow>
   dict_get result ''concurrency'' (JNum 0) \<noteq> JNum 0 \<and> unreliable result = Inr False \<and>
   a_conc p = dict_get result ''concurrency'' (JNum 0)"
  by (auto simp: baseten_row_def Let_def split: sum.splits bool.splits if_splits)

lemma baseten_rows_kept:
  "baseten_rows b200_best results = Inr ps \<Longrightarrow>
   list_all2 (\<lambda>r p. baseten_row b200_best r = Inr (Some p))
     (filter (\<lambda>r. dict_get r ''concurrency'' (JNum 0) \<noteq> JNum 0 \<and> unreliable r = Inr False) results) ps"
proof (induction results arbitrary: ps)
  case Nil
  then show ?case by simp
next
  case (Cons r rest)
  show ?case
  proof (cases "baseten_row b200_best r")
    case (Inl e)
    with Cons.prems show ?thesis by simp
  next
    case (Inr o1)
    show ?thesis
    proof (cases o1)
      case None
      with Inr have "baseten_row b200_best r = Inr None" by simp
      then have "dict_get r ''concurrency'' (JNum 0) = JNum 0 \<or> unreliable r = Inr True"
        by (simp add: baseten_row_None)
      moreover from Inr None Cons.prems have "baseten_rows b200_best rest = Inr ps" by simp
      ultimately show ?thesis using Cons.IH by auto
    next
      case (Some p)
      with Inr have row: "baseten_row b200_best r = Inr (Some p)" by simp
      with Cons.prems obtain ps' where ps': "baseten_rows b200_best rest = Inr ps'" "ps = p # ps'"
        by (auto split: sum.splits)
      from baseten_row_Some [OF row] Cons.IH [OF ps'(1)] row ps'(2) show ?thesis by simp
    qed
  qed
qed

lemma baseten_row_returns:
  assumes "numeric_run r"
  shows "\<exists>o1. baseten_row b200_best r = Inr o1"
proof -
  from assms obtain c t q ms where
    f: "dict_get r ''completed'' (JNum 0) = JNum c"
       "dict_get r ''total_requests'' (dict_get r ''num_prompts'' (JNum c)) = JNum t"
       "dict_get r ''total_token_throughput'' (JNum 0) = JNum q"
       "dict_get r ''median_e2el_ms'' (JNum 0) = JNum ms"
    by (auto simp: numeric_run_def)
  from unreliable_numbers [OF f(1,2)] f(3,4) show ?thesis
    by (auto simp: baseten_row_def Let_def BASETEN_GPU_COUNT_def split: bool.splits)
qed

lemma baseten_rows_returns:
  "\<forall>r \<in> set results. numeric_run r \<Longrightarrow> \<exists>ps. baseten_rows b200_best results = Inr ps"
proof (induction results)
  case Nil
  then show ?case by simp
next
  case (Cons r rest)
  then obtain ps where "baseten_rows b200_best rest = Inr ps" by auto
  moreover from Cons.prems baseten_row_returns [of r b200_best]
  obtain o1 where "baseten_row b200_best r = Inr o1" by auto
  ultimately show ?case by (cases o1) auto
qed


lemma b200_tp_at_conc_find:
  "b200_tp_at_conc b200_best c =
     (case find (\<lambda>r. dict_get r ''conc'' (JNum 0) = c) b200_best of
        None \<Rightarrow> JNull
      | Some r \<Rightarrow> dict_get r ''tp'' (JNum 0))"
  by (induction b200_best) auto

lemma b200_rows_all2: "b200_rows best = Inr ps \<Longrightarrow> list_all2 (\<lambda>r p. b200_row r = Inr p) best ps"
  by (induction best arbitrary: ps) (auto split: sum.splits)

subsection \<open>The file-name pattern and the loop over the files\<close>

lemma match_conc_at:
  assumes "ds \<noteq> []" and "\<forall>c \<in> set ds. is_digit c" and "post = [] \<or> \<not> is_digit (hd post)"
  shows "match_conc (''conc'' @ ds @ post) = Some ds"
proof -
  have "takeWhile is_digit (ds @ post) = ds @ takeWhile is_digit post"
    using assms(2) by (simp add: takeWhile_append2)
  moreover have "takeWhile is_digit post = []"
    using assms(3) by (cases post) auto
  ultimately show ?thesis using assms(1) by (simp add: match_conc_def)
qed

lemma match_conc_SomeD:
  assumes "match_conc s = Some x"
  shows "\<exists>d post. s = ''conc'' @ d # post \<and> is_digit d"
proof -
  from assms have t: "take 4 s = ''conc''" and w: "takeWhile is_digit (drop 4 s) \<noteq> []"
    by (auto simp: match_conc_def split: if_splits)
  from w obtain d post where d: "drop 4 s = d # post" "is_digit d"
    by (cases "drop 4 s") (auto split: if_splits)
  have "s = take 4 s @ drop 4 s" by simp
  with t d show ?thesis by metis
qed

lemma match_conc_digit: "is_digit d \<Longrightarrow> match_conc (''conc'' @ d # post) \<noteq> None"
  by (simp add: match_conc_def)

lemma re_search_conc_leftmost:
  assumes "ds \<noteq> []" and "\<forall>c \<in> set ds. is_digit c" and "post = [] \<or> \<not> is_digit (hd post)"
    and "\<forall>pre' d post'. pre @ ''conc'' @ ds @ post = pre' @ ''conc'' @ d # post' \<and> is_digit d
           \<longrightarrow> length pre \<le> length pre'"
  shows "re_search_conc (pre @ ''conc'' @ ds @ post) = Some ds"
  using assms(4)
proof (induction pre)
  case Nil
  show ?case using match_conc_at [OF assms(1,2,3)] by simp
next
  case (Cons p pre)
  have "match_conc (p # pre @ ''conc'' @ ds @ post) = None"
  proof (rule ccontr)
    assume "match_conc (p # pre @ ''conc'' @ ds @ post) \<noteq> None"
    then obtain x where "match_conc (p # pre @ ''conc'' @ ds @ post) = Some x" by auto
    from match_conc_SomeD [OF this] obtain d post' where
      "p # pre @ ''conc'' @ ds @ post = [] @ ''conc'' @ d # post'" "is_digit d" by auto
    with Cons.prems have "length (p # pre) \<le> length ([] :: string)"
      by (metis append_Cons)
    then show False by simp
  qed
  moreover have "re_search_conc (pre @ ''conc'' @ ds @ post) = Some ds"
  proof (rule Cons.IH, intro allI impI)
    fix pre' d post'
    assume a: "pre @ ''conc'' @ ds @ post = pre' @ ''conc'' @ d # post' \<and> is_digit d"
    then have "(p # pre) @ ''conc'' @ ds @ post = (p # pre') @ ''conc'' @ d # post'" by simp
    with a Cons.prems have "length (p # pre) \<le> length (p # pre')" by blast
    then show "length pre \<le> length pre'" by simp
  qed
  ultimately show ?case by simp
qed

lemma re_search_conc_none:
  "\<not> (\<exists>pre d post. stem = pre @ ''conc'' @ d # post \<and> is_digit d) \<Longrightarrow>
   re_search_conc stem = None"
proof (induction stem)
  case Nil
  then show ?case by simp
next
  case (Cons c cs)
  have "match_conc (c # cs) = None"
  proof (rule ccontr)
    assume "match_conc (c # cs) \<noteq> None"
    then obtain x where "match_conc (c # cs) = Some x" by auto
    from match_conc_SomeD [OF this] obtain d post where
      "c # cs = [] @ ''conc'' @ d # post" "is_digit d" by auto
    with Cons.prems show False by blast
  qed
  moreover have "re_search_conc cs = None"
  proof (rule Cons.IH, rule notI)
    assume "\<exists>pre d post. cs = pre @ ''conc'' @ d # post \<and> is_digit d"
    then obtain pre d post where "cs = pre @ ''conc'' @ d # post" "is_digit d" by auto
    then have "c # cs = (c # pre) @ ''conc'' @ d # post \<and> is_digit d" by simp
    with Cons.prems show False by blast
  qed
  ultimately show ?case by simp
qed

lemma int_of_digits_snoc:
  "int_of_digits (ds @ [d]) = 10 * int_of_digits ds + (of_char d - 48)"
  by (simp add: int_of_digits_def)

lemma int_of_digits_sum:
  "int_of_digits ds = (\<Sum>i < length ds. (of_char (ds ! i) - 48) * 10 ^ (length ds - 1 - i))"
proof (induction ds rule: rev_induct)
  case Nil
  show ?case by (simp add: int_of_digits_def)
next
  case (snoc d ds)
  have "(\<Sum>i < length ds. (of_char ((ds @ [d]) ! i) - 48) * (10 :: int) ^ (length (ds @ [d]) - 1 - i)) =
        (\<Sum>i < length ds. 10 * ((of_char (ds ! i) - 48) * 10 ^ (length ds - 1 - i)))"
  proof (rule sum.cong)
    fix i assume "i \<in> {..<length ds}"
    then have i: "i < length ds" by simp
    then have "length ds - i = Suc (length ds - 1 - i)" by simp
    with i show "(of_char ((ds @ [d]) ! i) - 48) * (10 :: int) ^ (length (ds @ [d]) - 1 - i) =
        10 * ((of_char (ds ! i) - 48) * 10 ^ (length ds - 1 - i))"
      by (simp add: nth_append)
  qed simp
  then show ?case
    by (simp add: int_of_digits_snoc snoc.IH sum_distrib_left)
qed

lemma leftmost_by_search:
  assumes "\<forall>k < length pre. match_conc (drop k stem) = None"
    and "stem = pre' @ ''conc'' @ d # post'" and "is_digit d"
  shows "length pre \<le> length pre'"
proof (rule ccontr)
  assume "\<not> length pre \<le> length pre'"
  with assms(1) have "match_conc (drop (length pre') stem) = None" by simp
  with assms(2) have "match_conc (''conc'' @ d # post') = None" by simp
  with match_conc_digit [OF assms(3)] show False by blast
qed

lemma no_c_no_match:
  assumes "CHR ''c'' \<notin> set stem"
  shows "\<not> (\<exists>pre d post. stem = pre @ ''conc'' @ d # post \<and> d \<in> set ''0123456789'')"
proof
  assume "\<exists>pre d post. stem = pre @ ''conc'' @ d # post \<and> d \<in> set ''0123456789''"
  then obtain pre d post where "stem = pre @ ''conc'' @ d # post" by blast
  then have "CHR ''c'' \<in> set stem" by simp
  with assms show False by simp
qed

lemma re_search_conc_first_match:
  assumes "ds \<noteq> []" and "set ds \<subseteq> set ''0123456789''"
    and "post = [] \<or> hd post \<notin> set ''0123456789''"
    and "\<forall>pre' d post'. pre @ ''conc'' @ ds @ post = pre' @ ''conc'' @ d # post' \<and>
                         d \<in> set ''0123456789'' \<longrightarrow> length pre \<le> length pre'"
  shows "re_search_conc (pre @ ''conc'' @ ds @ post) = Some ds"
proof (rule re_search_conc_leftmost [OF assms(1)])
  show "\<forall>c \<in> set ds. is_digit c" unfolding is_digit_def using assms(2) by (rule subsetD [THEN ballI])
  show "post = [] \<or> \<not> is_digit (hd post)" unfolding is_digit_def using assms(3) .
  show "\<forall>pre' d post'. pre @ ''conc'' @ ds @ post = pre' @ ''conc'' @ d # post' \<and> is_digit d
           \<longrightarrow> length pre \<le> length pre'"
    unfolding is_digit_def using assms(4) .
qed

lemma re_search_conc_no_match:
  assumes "\<not> (\<exists>pre d post. stem = pre @ ''conc'' @ d # post \<and> d \<in> set ''0123456789'')"
  shows "re_search_conc stem = None"
proof (rule re_search_conc_none)
  show "\<not> (\<exists>pre d post. stem = pre @ ''conc'' @ d # post \<and> is_digit d)"
    unfolding is_digit_def using assms .
qed


lemma load_files_concat:
  "load_files files =
     concat (map (\<lambda>(stem, f). case f of
                    None \<Rightarrow> []
                  | Some result \<Rightarrow>
                      if resolve_conc stem result = JNull then []
                      else [result(''concurrency'' \<mapsto> resolve_conc stem result)]) files)"
  by (induction files rule: load_files.induct) (auto simp: Let_def)

subsection \<open>Empty results\<close>

lemma select_step_nonempty: "select_step best r = Inr best' \<Longrightarrow> best' \<noteq> []"
proof -
  assume a: "select_step best r = Inr best'"
  have d: "dict_set best (dict_get r ''conc'' (JNum 0)) r \<noteq> []" by (cases best) (auto split: if_splits)
  show ?thesis
  proof (cases best)
    case Nil
    with a d show ?thesis by (simp add: select_step_def Let_def)
  next
    case (Cons kv kvs)
    with select_step_cases [OF a] d show ?thesis by auto
  qed
qed

lemma select_loop_nonempty:
  "select_loop best rs = Inr best' \<Longrightarrow> best \<noteq> [] \<or> rs \<noteq> [] \<Longrightarrow> best' \<noteq> []"
  by (induction rs arbitrary: best) (auto split: sum.splits dest: select_step_nonempty)

lemma py_sorted_length: "py_sorted key xs = Inr ys \<Longrightarrow> length ys = length xs"
  using py_sorted_mset by (metis size_mset)

lemma best_empty_iff:
  assumes "load_b200_trt_results (Some all_data) = Inr (best, b200_all)"
  shows "b200_all = filter is_b200_trt all_data \<and> (best = []) = (b200_all = [])"
proof -
  from assms obtain sel where
    sel: "select_loop [] (filter is_b200_trt all_data) = Inr sel" and
    srt: "py_sorted (\<lambda>x. dict_get x ''conc'' (JNum 0)) (map snd sel) = Inr best" and
    al: "b200_all = filter is_b200_trt all_data"
    by (auto simp: load_b200_trt_results_def Let_def split: sum.splits)
  have "(sel = []) = (filter is_b200_trt all_data = [])"
    using sel select_loop_nonempty [OF sel] by (cases "filter is_b200_trt all_data") auto
  moreover have "(best = []) = (sel = [])" using py_sorted_length [OF srt] by auto
  ultimately show ?thesis using al by simp
qed

lemmas eval_defs = Let_def load_baseten_results_def resolve_conc_def dict_get_def
  load_b200_trt_results_def is_b200_trt_def select_step_def plot_comparison_def
  plot_comparison_with_all_b200_configs_def b200_row_def baseten_row_def unreliable_def
  py_gt_def BASETEN_GPU_COUNT_def detail_row_def

lemmas run_defs = load_b200_trt_results_def is_b200_trt_def select_step_def dict_get_def
  Let_def py_gt_def b200_row_def

section \<open>Loader B: what the selection keeps\<close>

text \<open>
  C8.  Whenever \<^verbatim>\<open>load_b200_trt_results\<close> returns, no two records of its first result
  (the best per concurrency) have the same concurrency, and the list is strictly
  ascending under Python's \<^verbatim>\<open><\<close> on the concurrency.  It does return when every
  record that passes the hardware filter has a number for its concurrency and a number
  under \<^verbatim>\<open>tput_per_gpu\<close>; the second result is then the filtered list.
\<close>

theorem best_unique_and_sorted:
  "(load_b200_trt_results json_file = Inr (best, b200_all) \<longrightarrow>
      distinct (map (\<lambda>r. dict_get r ''conc'' (JNum 0)) best) \<and>
      sorted_wrt (\<lambda>a b. py_lt (dict_get a ''conc'' (JNum 0)) (dict_get b ''conc'' (JNum 0)) = Inr True)
        best) \<and>
   ((\<forall>r \<in> set (filter is_b200_trt all_data).
        (\<exists>n. dict_get r ''conc'' (JNum 0) = JNum n) \<and>
        (\<exists>q. r ''tput_per_gpu'' = Some (JNum q))) \<longrightarrow>
      (\<exists>best. load_b200_trt_results (Some all_data) = Inr (best, filter is_b200_trt all_data)))"
proof (intro conjI impI)
  assume ok: "load_b200_trt_results json_file = Inr (best, b200_all)"
  then obtain data sel where
    sel: "select_loop [] (filter is_b200_trt data) = Inr sel" and
    srt: "py_sorted (\<lambda>x. dict_get x ''conc'' (JNum 0)) (map snd sel) = Inr best"
    by (auto simp: load_b200_trt_results_def Let_def split: option.splits sum.splits)
  have k: "keyed sel" using keyed_select_loop [OF _ sel] by (simp add: keyed_def)
  have "mset (map (\<lambda>r. dict_get r ''conc'' (JNum 0)) best) = mset (map fst sel)"
    using py_sorted_mset [OF srt] best_keys [OF k] by (metis mset_map)
  moreover have "distinct (map fst sel)" using k by (simp add: keyed_def)
  ultimately show d: "distinct (map (\<lambda>r. dict_get r ''conc'' (JNum 0)) best)"
    by (metis mset_eq_imp_distinct_iff)
  show "sorted_wrt (\<lambda>a b. py_lt (dict_get a ''conc'' (JNum 0)) (dict_get b ''conc'' (JNum 0)) = Inr True)
          best"
    using sorted_wrt_strict [OF py_sorted_sorted [OF srt] d] by simp
next
  assume wf: "\<forall>r \<in> set (filter is_b200_trt all_data).
        (\<exists>n. dict_get r ''conc'' (JNum 0) = JNum n) \<and>
        (\<exists>q. r ''tput_per_gpu'' = Some (JNum q))"
  let ?rs = "filter is_b200_trt all_data"
  from wf have "\<forall>r \<in> set ?rs. has_tput r" by (simp add: has_tput_def)
  from select_loop_returns [of "[]" ?rs] this obtain sel where
    sel: "select_loop [] ?rs = Inr sel" "snd ` set sel \<subseteq> set ?rs" by auto
  with wf have "\<forall>x \<in> set (map snd sel). \<exists>n. dict_get x ''conc'' (JNum 0) = JNum n" by auto
  from py_sorted_returns [OF this] obtain best where
    "py_sorted (\<lambda>x. dict_get x ''conc'' (JNum 0)) (map snd sel) = Inr best" by auto
  with sel show "\<exists>best. load_b200_trt_results (Some all_data) = Inr (best, ?rs)"
    by (simp add: load_b200_trt_results_def)
qed

theorem best_unique_and_sorted_witness:
  "load_b200_trt_results (Some [tp2_conc32, h100_conc16, tp2_conc16, tp1_conc64, tp8_conc16]) =
     Inr ([tp8_conc16, tp2_conc32, tp1_conc64], [tp2_conc32, tp2_conc16, tp1_conc64, tp8_conc16]) \<and>
   distinct (map (\<lambda>r. dict_get r ''conc'' (JNum 0)) [tp8_conc16, tp2_conc32, tp1_conc64]) \<and>
   sorted_wrt (\<lambda>a b. py_lt (dict_get a ''conc'' (JNum 0)) (dict_get b ''conc'' (JNum 0)) = Inr True)
     [tp8_conc16, tp2_conc32, tp1_conc64] \<and>
   map (\<lambda>r. dict_get r ''conc'' (JNum 0)) [tp8_conc16, tp2_conc32, tp1_conc64] =
     [JNum 16, JNum 32, JNum 64] \<and>
   (\<exists>best. load_b200_trt_results (Some [tp2_conc32, h100_conc16, tp2_conc16, tp1_conc64, tp8_conc16]) =
      Inr (best, filter is_b200_trt [tp2_conc32, h100_conc16, tp2_conc16, tp1_conc64, tp8_conc16]))"
proof -
  have run: "load_b200_trt_results (Some [tp2_conc32, h100_conc16, tp2_conc16, tp1_conc64, tp8_conc16]) =
     Inr ([tp8_conc16, tp2_conc32, tp1_conc64], [tp2_conc32, tp2_conc16, tp1_conc64, tp8_conc16])"
    by (simp add: run_defs tp2_conc32_def h100_conc16_def tp2_conc16_def tp1_conc64_def
          tp8_conc16_def)
  have wf: "\<forall>r \<in> set (filter is_b200_trt
                       [tp2_conc32, h100_conc16, tp2_conc16, tp1_conc64, tp8_conc16]).
      (\<exists>n. dict_get r ''conc'' (JNum 0) = JNum n) \<and> (\<exists>q. r ''tput_per_gpu'' = Some (JNum q))"
    by (simp add: is_b200_trt_def dict_get_def tp2_conc32_def h100_conc16_def tp2_conc16_def
          tp1_conc64_def tp8_conc16_def)
  have keys: "map (\<lambda>r. dict_get r ''conc'' (JNum 0)) [tp8_conc16, tp2_conc32, tp1_conc64] =
     [JNum 16, JNum 32, JNum 64]"
    by (simp add: dict_get_def tp2_conc32_def tp1_conc64_def tp8_conc16_def)
  note rule = best_unique_and_sorted
    [of "Some [tp2_conc32, h100_conc16, tp2_conc16, tp1_conc64, tp8_conc16]"
        "[tp8_conc16, tp2_conc32, tp1_conc64]" "[tp2_conc32, tp2_conc16, tp1_conc64, tp8_conc16]"
        "[tp2_conc32, h100_conc16, tp2_conc16, tp1_conc64, tp8_conc16]"]
  from rule [THEN conjunct1, THEN mp, OF run]
  have sorted: "distinct (map (\<lambda>r. dict_get r ''conc'' (JNum 0)) [tp8_conc16, tp2_conc32, tp1_conc64]) \<and>
      sorted_wrt (\<lambda>a b. py_lt (dict_get a ''conc'' (JNum 0)) (dict_get b ''conc'' (JNum 0)) = Inr True)
        [tp8_conc16, tp2_conc32, tp1_conc64]" .
  from rule [THEN conjunct2, THEN mp, OF wf]
  have returns: "\<exists>best. load_b200_trt_results
        (Some [tp2_conc32, h100_conc16, tp2_conc16, tp1_conc64, tp8_conc16]) =
      Inr (best, filter is_b200_trt [tp2_conc32, h100_conc16, tp2_conc16, tp1_conc64, tp8_conc16])" .
  show ?thesis
    using run sorted [THEN conjunct1] sorted [THEN conjunct2] keys returns
    by blast
qed

text \<open>
  C3.  A candidate whose degree is 8 is stored whatever the dictionary holds and
  whatever its throughput is, and it is then the entry of its concurrency.  For the
  array of a degree-2 record with throughput 500 followed by a degree-8 record with
  throughput 400, both at concurrency 16, the best list is the degree-8 record, and its
  plotted throughput is 400.
\<close>

theorem tp8_candidate_replaces:
  "(dict_get r ''tp'' (JNum 0) = JNum 8 \<longrightarrow>
      select_step best r = Inr (dict_set best (dict_get r ''conc'' (JNum 0)) r) \<and>
      map_of (dict_set best (dict_get r ''conc'' (JNum 0)) r) (dict_get r ''conc'' (JNum 0)) = Some r) \<and>
   load_b200_trt_results (Some [tp2_conc16, tp8_conc16]) =
     Inr ([tp8_conc16], [tp2_conc16, tp8_conc16]) \<and>
   tp2_conc16 ''tput_per_gpu'' = Some (JNum 500) \<and>
   b200_rows [tp8_conc16] =
     Inr [\<lparr>b_conc = JNum 16, b_tput = JNum 400, b_e2el = JNum 4, b_label = PerGPU (JNum 8)\<rparr>]"
proof -
  have "dict_get r ''tp'' (JNum 0) = JNum 8 \<longrightarrow>
      select_step best r = Inr (dict_set best (dict_get r ''conc'' (JNum 0)) r)"
    by (simp add: select_step_def Let_def split: option.splits)
  moreover have "load_b200_trt_results (Some [tp2_conc16, tp8_conc16]) =
      Inr ([tp8_conc16], [tp2_conc16, tp8_conc16])"
    by (simp add: run_defs tp2_conc16_def tp8_conc16_def)
  moreover have "b200_rows [tp8_conc16] =
     Inr [\<lparr>b_conc = JNum 16, b_tput = JNum 400, b_e2el = JNum 4, b_label = PerGPU (JNum 8)\<rparr>]"
    by (simp add: run_defs tp8_conc16_def)
  moreover have "tp2_conc16 ''tput_per_gpu'' = Some (JNum 500)" by (simp add: tp2_conc16_def)
  ultimately show ?thesis by (simp add: map_of_dict_set)
qed

theorem tp8_candidate_replaces_witness:
  "dict_get tp8_conc16 ''tp'' (JNum 0) = JNum 8 \<and>
   select_step [(JNum 16, tp2_conc16)] tp8_conc16 = Inr [(JNum 16, tp8_conc16)]"
proof -
  have tp: "dict_get tp8_conc16 ''tp'' (JNum 0) = JNum 8"
    by (simp add: dict_get_def tp8_conc16_def)
  have c: "dict_get tp8_conc16 ''conc'' (JNum 0) = JNum 16"
    by (simp add: dict_get_def tp8_conc16_def)
  from tp8_candidate_replaces [of tp8_conc16 "[(JNum 16, tp2_conc16)]"] tp c
  show ?thesis by simp
qed

text \<open>
  C2, as the code has it.  Once the entry of a concurrency is a degree-8 record, it is
  a degree-8 record after any further records the loop gets through: no record of
  another degree displaces it, and each later degree-8 record of that concurrency takes
  its place, so the entry is the last of them.
\<close>

theorem tp8_best_stays_tp8:
  assumes "select_loop best rs = Inr best'"
    and "map_of best c = Some cur" and "dict_get cur ''tp'' (JNum 0) = JNum 8"
  shows "\<exists>r. map_of best' c = Some r \<and> dict_get r ''tp'' (JNum 0) = JNum 8 \<and>
             r = last (cur # filter (\<lambda>r. dict_get r ''conc'' (JNum 0) = c \<and>
                                          dict_get r ''tp'' (JNum 0) = JNum 8) rs)"
  using assms
proof (induction rs arbitrary: best cur)
  case Nil
  then show ?case by simp
next
  case (Cons r rs)
  from Cons.prems(1) obtain mid where
    step: "select_step best r = Inr mid" and rest: "select_loop mid rs = Inr best'"
    by (auto split: sum.splits)
  let ?P = "\<lambda>r. dict_get r ''conc'' (JNum 0) = c \<and> dict_get r ''tp'' (JNum 0) = JNum 8"
  let ?cur' = "if ?P r then r else cur"
  have m: "map_of mid c = Some ?cur'"
    using select_step_keeps_tp8 [OF Cons.prems(2,3) step] by simp
  have t: "dict_get ?cur' ''tp'' (JNum 0) = JNum 8" using Cons.prems(3) by simp
  show ?case using Cons.IH [OF rest m t] by simp
qed

theorem tp8_best_stays_tp8_witness:
  "map_of [(JNum 16, tp8_conc16)] (JNum 16) = Some tp8_conc16 \<and>
   dict_get tp8_conc16 ''tp'' (JNum 0) = JNum 8 \<and>
   select_loop [(JNum 16, tp8_conc16)] [tp2_conc16, tp8_conc16_later, tp2_conc32] =
     Inr [(JNum 16, tp8_conc16_later), (JNum 32, tp2_conc32)] \<and>
   map_of [(JNum 16, tp8_conc16_later), (JNum 32, tp2_conc32)] (JNum 16) = Some tp8_conc16_later"
proof -
  have run: "select_loop [(JNum 16, tp8_conc16)] [tp2_conc16, tp8_conc16_later, tp2_conc32] =
     Inr [(JNum 16, tp8_conc16_later), (JNum 32, tp2_conc32)]"
    by (simp add: run_defs tp8_conc16_def tp2_conc16_def tp8_conc16_later_def tp2_conc32_def)
  have cur: "map_of [(JNum 16, tp8_conc16)] (JNum 16) = Some tp8_conc16" by simp
  have tp: "dict_get tp8_conc16 ''tp'' (JNum 0) = JNum 8"
    by (simp add: dict_get_def tp8_conc16_def)
  from tp8_best_stays_tp8 [OF run cur tp] run cur tp show ?thesis by auto
qed

text \<open>
  C2, as the claim has it, fails: after the degree-8 record with throughput 400 has
  become the entry of concurrency 16, a later degree-8 record with throughput 300 at
  the same concurrency replaces it.
\<close>

theorem later_tp8_replaces_tp8:
  "select_loop [] [tp8_conc16] = Inr [(JNum 16, tp8_conc16)] \<and>
   dict_get tp8_conc16 ''tp'' (JNum 0) = JNum 8 \<and>
   select_loop [] [tp8_conc16, tp8_conc16_later] = Inr [(JNum 16, tp8_conc16_later)] \<and>
   load_b200_trt_results (Some [tp8_conc16, tp8_conc16_later]) =
     Inr ([tp8_conc16_later], [tp8_conc16, tp8_conc16_later]) \<and>
   tp8_conc16_later ''tput_per_gpu'' = Some (JNum 300) \<and>
   tp8_conc16 ''tput_per_gpu'' = Some (JNum 400)"
  by (simp add: run_defs tp8_conc16_def tp8_conc16_later_def)

section \<open>Normalizer: the reliability filter\<close>

text \<open>
  C4, as the code has it.  A Series-A record is left out of the comparison exactly when
  its concurrency is 0, or its completed count is below 10, or its total request count
  (\<^verbatim>\<open>total_requests\<close>, else \<^verbatim>\<open>num_prompts\<close>, else the completed count itself) is above
  0 and completed / total is below 0.5.  The series the chart functions build holds, in
  order, one point for each record that is not left out, and is built whenever the
  fields read are numbers.  Of the claim's four records, 5 of 100 and 10 of 100 are
  left out, 60 of 100 and 20 with no total are in the series.
\<close>

theorem reliability_filter:
  "(dict_get result ''completed'' (JNum 0) = JNum c \<and>
    dict_get result ''total_requests'' (dict_get result ''num_prompts'' (JNum c)) = JNum t \<longrightarrow>
      unreliable result = Inr (c < 10 \<or> (0 < t \<and> c / t < 1 / 2))) \<and>
   (baseten_row b200_best result = Inr None) =
     (dict_get result ''concurrency'' (JNum 0) = JNum 0 \<or> unreliable result = Inr True) \<and>
   (baseten_rows b200_best results = Inr ps \<longrightarrow>
      list_all2 (\<lambda>r p. baseten_row b200_best r = Inr (Some p))
        (filter (\<lambda>r. dict_get r ''concurrency'' (JNum 0) \<noteq> JNum 0 \<and> unreliable r = Inr False)
           results) ps) \<and>
   ((\<forall>r \<in> set results. numeric_run r) \<longrightarrow> (\<exists>ps. baseten_rows b200_best results = Inr ps)) \<and>
   baseten_rows b200_best four_runs =
     Inr [\<lparr>a_conc = JNum 16, a_tput = JNum 0, a_e2el = JNum 0\<rparr>,
          \<lparr>a_conc = JNum 32, a_tput = JNum 0, a_e2el = JNum 0\<rparr>]"
proof (intro conjI impI)
  assume "dict_get result ''completed'' (JNum 0) = JNum c \<and>
    dict_get result ''total_requests'' (dict_get result ''num_prompts'' (JNum c)) = JNum t"
  then show "unreliable result = Inr (c < 10 \<or> (0 < t \<and> c / t < 1 / 2))"
    by (simp add: unreliable_numbers)
next
  show "(baseten_row b200_best result = Inr None) =
     (dict_get result ''concurrency'' (JNum 0) = JNum 0 \<or> unreliable result = Inr True)"
    by (rule baseten_row_None)
next
  assume "baseten_rows b200_best results = Inr ps"
  then show "list_all2 (\<lambda>r p. baseten_row b200_best r = Inr (Some p))
        (filter (\<lambda>r. dict_get r ''concurrency'' (JNum 0) \<noteq> JNum 0 \<and> unreliable r = Inr False)
           results) ps"
    by (rule baseten_rows_kept)
next
  assume "\<forall>r \<in> set results. numeric_run r"
  then show "\<exists>ps. baseten_rows b200_best results = Inr ps" by (rule baseten_rows_returns)
next
  show "baseten_rows b200_best four_runs =
     Inr [\<lparr>a_conc = JNum 16, a_tput = JNum 0, a_e2el = JNum 0\<rparr>,
          \<lparr>a_conc = JNum 32, a_tput = JNum 0, a_e2el = JNum 0\<rparr>]"
    by (simp add: four_runs_def baseten_row_def unreliable_def dict_get_def py_gt_def Let_def
          BASETEN_GPU_COUNT_def run_5_of_100_def run_10_of_100_def run_60_of_100_def
          run_20_no_total_def)
qed

theorem reliability_filter_witness:
  "dict_get run_60_of_100 ''completed'' (JNum 0) = JNum 60 \<and>
   dict_get run_60_of_100 ''total_requests'' (dict_get run_60_of_100 ''num_prompts'' (JNum 60)) =
     JNum 100 \<and>
   unreliable run_60_of_100 = Inr False \<and>
   unreliable run_5_of_100 = Inr True \<and>
   baseten_rows [tp8_conc16] four_runs =
     Inr [\<lparr>a_conc = JNum 16, a_tput = JNum 0, a_e2el = JNum 0\<rparr>,
          \<lparr>a_conc = JNum 32, a_tput = JNum 0, a_e2el = JNum 0\<rparr>] \<and>
   filter (\<lambda>r. dict_get r ''concurrency'' (JNum 0) \<noteq> JNum 0 \<and> unreliable r = Inr False) four_runs =
     [run_60_of_100(''concurrency'' \<mapsto> JNum 16), run_20_no_total(''concurrency'' \<mapsto> JNum 32)] \<and>
   list_all2 (\<lambda>r p. baseten_row [tp8_conc16] r = Inr (Some p))
     [run_60_of_100(''concurrency'' \<mapsto> JNum 16), run_20_no_total(''concurrency'' \<mapsto> JNum 32)]
     [\<lparr>a_conc = JNum 16, a_tput = JNum 0, a_e2el = JNum 0\<rparr>,
      \<lparr>a_conc = JNum 32, a_tput = JNum 0, a_e2el = JNum 0\<rparr>] \<and>
   (\<exists>ps. baseten_rows [tp8_conc16] four_runs = Inr ps)"
proof -
  note rule = reliability_filter [where b200_best = "[tp8_conc16]" and results = four_runs]
  have a: "dict_get run_60_of_100 ''completed'' (JNum 0) = JNum 60 \<and>
     dict_get run_60_of_100 ''total_requests'' (dict_get run_60_of_100 ''num_prompts'' (JNum 60)) =
       JNum 100"
    by (simp add: dict_get_def run_60_of_100_def)
  from rule [where result = run_60_of_100 and c = 60 and t = 100, THEN conjunct1, THEN mp, OF a]
  have 1: "unreliable run_60_of_100 = Inr False" by simp
  have b: "dict_get run_5_of_100 ''completed'' (JNum 0) = JNum 5 \<and>
     dict_get run_5_of_100 ''total_requests'' (dict_get run_5_of_100 ''num_prompts'' (JNum 5)) =
       JNum 100"
    by (simp add: dict_get_def run_5_of_100_def)
  from rule [where result = run_5_of_100 and c = 5 and t = 100, THEN conjunct1, THEN mp, OF b]
  have 2: "unreliable run_5_of_100 = Inr True" by simp
  have rows: "baseten_rows [tp8_conc16] four_runs =
     Inr [\<lparr>a_conc = JNum 16, a_tput = JNum 0, a_e2el = JNum 0\<rparr>,
          \<lparr>a_conc = JNum 32, a_tput = JNum 0, a_e2el = JNum 0\<rparr>]"
    by (rule rule [THEN conjunct2, THEN conjunct2, THEN conjunct2, THEN conjunct2])
  have kept: "filter (\<lambda>r. dict_get r ''concurrency'' (JNum 0) \<noteq> JNum 0 \<and> unreliable r = Inr False)
       four_runs =
     [run_60_of_100(''concurrency'' \<mapsto> JNum 16), run_20_no_total(''concurrency'' \<mapsto> JNum 32)]"
    by (simp add: four_runs_def unreliable_def dict_get_def py_gt_def run_5_of_100_def
          run_10_of_100_def run_60_of_100_def run_20_no_total_def)
  from rule [THEN conjunct2, THEN conjunct2, THEN conjunct1, THEN mp, OF rows]
  have 3: "list_all2 (\<lambda>r p. baseten_row [tp8_conc16] r = Inr (Some p))
     [run_60_of_100(''concurrency'' \<mapsto> JNum 16), run_20_no_total(''concurrency'' \<mapsto> JNum 32)]
     [\<lparr>a_conc = JNum 16, a_tput = JNum 0, a_e2el = JNum 0\<rparr>,
      \<lparr>a_conc = JNum 32, a_tput = JNum 0, a_e2el = JNum 0\<rparr>]"
    unfolding kept .
  have num: "\<forall>r \<in> set four_runs. numeric_run r"
    by (simp add: four_runs_def numeric_run_def dict_get_def run_5_of_100_def
          run_10_of_100_def run_60_of_100_def run_20_no_total_def)
  from rule [THEN conjunct2, THEN conjunct2, THEN conjunct2, THEN conjunct1, THEN mp, OF num]
  have 4: "\<exists>ps. baseten_rows [tp8_conc16] four_runs = Inr ps" .
  from a [THEN conjunct1] a [THEN conjunct2] 1 2 rows kept 3 4 show ?thesis by blast
qed

text \<open>
  C4, as the claim has it, fails in two places.  A record with 20 completed requests
  and a total of -100 has a ratio below 0.5 and is kept, because the ratio is only
  looked at for a total above 0.  A record with 60 of 100 completed and a concurrency
  of 0 (the file says \<^verbatim>\<open>max_concurrency\<close> 0) passes the filter and is left out all the
  same.
\<close>

theorem negative_total_kept_conc0_dropped:
  "baseten_negative_total ''completed'' = Some (JNum 20) \<and>
   baseten_negative_total ''total_requests'' = Some (JNum (- 100)) \<and>
   (20 :: rat) / (- 100) < 1 / 2 \<and>
   unreliable baseten_negative_total = Inr False \<and>
   baseten_rows [] [baseten_negative_total] =
     Inr [\<lparr>a_conc = JNum 16, a_tput = JNum 0, a_e2el = JNum 0\<rparr>] \<and>
   load_baseten_results [(''run_z'', Some run_zero_conc)] =
     Inr [run_zero_conc(''concurrency'' \<mapsto> JNum 0)] \<and>
   unreliable (run_zero_conc(''concurrency'' \<mapsto> JNum 0)) = Inr False \<and>
   baseten_rows [] [run_zero_conc(''concurrency'' \<mapsto> JNum 0)] = Inr []"
  by (simp add: eval_defs baseten_negative_total_def run_zero_conc_def)

text \<open>
  C10.  The filter never raises \<^verbatim>\<open>ZeroDivisionError\<close>, and neither does the loop
  over Series A that both chart functions run: the ratio is computed only after
  \<^verbatim>\<open>total_requests > 0\<close> has held, and the other two divisors are the constants 1000
  and 8.  A record whose total resolves (through \<^verbatim>\<open>total_requests\<close>, \<^verbatim>\<open>num_prompts\<close>,
  and the completed count itself) to zero or less is skipped exactly when its completed
  count is below 10.
\<close>

theorem ratio_division_guarded:
  "unreliable result \<noteq> Inl ZeroDivisionError \<and>
   baseten_rows b200_best results \<noteq> Inl ZeroDivisionError \<and>
   (dict_get result ''completed'' (JNum 0) = JNum c \<and>
    dict_get result ''total_requests'' (dict_get result ''num_prompts'' (JNum c)) = JNum t \<and>
    t \<le> 0 \<longrightarrow> unreliable result = Inr (c < 10))"
  using unreliable_no_zero_division baseten_rows_no_zero_division
  by (auto simp: unreliable_numbers)

theorem ratio_division_guarded_witness:
  "dict_get run_20_of_0 ''completed'' (JNum 0) = JNum 20 \<and>
   dict_get run_20_of_0 ''total_requests'' (dict_get run_20_of_0 ''num_prompts'' (JNum 20)) = JNum 0 \<and>
   unreliable run_20_of_0 = Inr False \<and>
   dict_get baseten_negative_total ''completed'' (JNum 0) = JNum 20 \<and>
   dict_get baseten_negative_total ''total_requests''
     (dict_get baseten_negative_total ''num_prompts'' (JNum 20)) = JNum (- 100) \<and>
   unreliable baseten_negative_total = Inr False"
proof -
  have a: "dict_get run_20_of_0 ''completed'' (JNum 0) = JNum 20"
    "dict_get run_20_of_0 ''total_requests'' (dict_get run_20_of_0 ''num_prompts'' (JNum 20)) = JNum 0"
    by (simp_all add: dict_get_def run_20_of_0_def)
  have b: "dict_get baseten_negative_total ''completed'' (JNum 0) = JNum 20"
    "dict_get baseten_negative_total ''total_requests''
       (dict_get baseten_negative_total ''num_prompts'' (JNum 20)) = JNum (- 100)"
    by (simp_all add: dict_get_def baseten_negative_total_def)
  from ratio_division_guarded [of run_20_of_0 "[]" "[]" 20 0] a
  have 1: "unreliable run_20_of_0 = Inr False" by simp
  from ratio_division_guarded [of baseten_negative_total "[]" "[]" 20 "- 100"] b
  have 2: "unreliable baseten_negative_total = Inr False" by simp
  from a b 1 2 show ?thesis by simp
qed

section \<open>Normalizer: comparable throughput\<close>

text \<open>
  C5.  The row of a record of the best list carries \<^verbatim>\<open>tput_per_gpu\<close> as it is when the
  degree is 8, and \<^verbatim>\<open>tput_per_gpu\<close> times the degree when the degree is another number;
  \<^verbatim>\<open>b200_rows\<close> gives every record of the list the row \<^verbatim>\<open>b200_row\<close> computes for it.
  The single record at concurrency 32 with degree 2 and throughput 300 is selected and
  plotted at 600.
\<close>

theorem b200_throughput_rule:
  "(dict_get r ''tp'' (JNum 0) = JNum 8 \<longrightarrow>
      (\<exists>p. b200_row r = Inr p \<and> b_tput p = dict_get r ''tput_per_gpu'' (JNum 0))) \<and>
   (dict_get r ''tp'' (JNum 0) = JNum d \<and> d \<noteq> 8 \<and> dict_get r ''tput_per_gpu'' (JNum 0) = JNum q \<longrightarrow>
      (\<exists>p. b200_row r = Inr p \<and> b_tput p = JNum (q * d))) \<and>
   (b200_rows best = Inr ps \<longrightarrow> list_all2 (\<lambda>r p. b200_row r = Inr p) best ps) \<and>
   load_b200_trt_results (Some [tp2_conc32]) = Inr ([tp2_conc32], [tp2_conc32]) \<and>
   b200_rows [tp2_conc32] =
     Inr [\<lparr>b_conc = JNum 32, b_tput = JNum 600, b_e2el = JNum 6, b_label = Total (JNum 2)\<rparr>]"
proof (intro conjI impI)
  assume "dict_get r ''tp'' (JNum 0) = JNum 8"
  then show "\<exists>p. b200_row r = Inr p \<and> b_tput p = dict_get r ''tput_per_gpu'' (JNum 0)"
    by (simp add: b200_row_def)
next
  assume "dict_get r ''tp'' (JNum 0) = JNum d \<and> d \<noteq> 8 \<and> dict_get r ''tput_per_gpu'' (JNum 0) = JNum q"
  then show "\<exists>p. b200_row r = Inr p \<and> b_tput p = JNum (q * d)"
    by (simp add: b200_row_def)
next
  assume "b200_rows best = Inr ps"
  then show "list_all2 (\<lambda>r p. b200_row r = Inr p) best ps" by (rule b200_rows_all2)
next
  show "load_b200_trt_results (Some [tp2_conc32]) = Inr ([tp2_conc32], [tp2_conc32])"
    by (simp add: run_defs tp2_conc32_def)
next
  show "b200_rows [tp2_conc32] =
     Inr [\<lparr>b_conc = JNum 32, b_tput = JNum 600, b_e2el = JNum 6, b_label = Total (JNum 2)\<rparr>]"
    by (simp add: run_defs tp2_conc32_def)
qed

theorem b200_throughput_rule_witness:
  "dict_get tp8_conc16 ''tp'' (JNum 0) = JNum 8 \<and>
   dict_get tp8_conc16 ''tput_per_gpu'' (JNum 0) = JNum 400 \<and>
   (\<exists>p. b200_row tp8_conc16 = Inr p \<and> b_tput p = JNum 400) \<and>
   dict_get tp2_conc32 ''tp'' (JNum 0) = JNum 2 \<and>
   dict_get tp2_conc32 ''tput_per_gpu'' (JNum 0) = JNum 300 \<and>
   (\<exists>p. b200_row tp2_conc32 = Inr p \<and> b_tput p = JNum 600) \<and>
   b200_rows [tp8_conc16, tp2_conc32] =
     Inr [\<lparr>b_conc = JNum 16, b_tput = JNum 400, b_e2el = JNum 4, b_label = PerGPU (JNum 8)\<rparr>,
          \<lparr>b_conc = JNum 32, b_tput = JNum 600, b_e2el = JNum 6, b_label = Total (JNum 2)\<rparr>] \<and>
   list_all2 (\<lambda>r p. b200_row r = Inr p) [tp8_conc16, tp2_conc32]
     [\<lparr>b_conc = JNum 16, b_tput = JNum 400, b_e2el = JNum 4, b_label = PerGPU (JNum 8)\<rparr>,
      \<lparr>b_conc = JNum 32, b_tput = JNum 600, b_e2el = JNum 6, b_label = Total (JNum 2)\<rparr>]"
proof -
  have a: "dict_get tp8_conc16 ''tp'' (JNum 0) = JNum 8"
    "dict_get tp8_conc16 ''tput_per_gpu'' (JNum 0) = JNum 400"
    by (simp_all add: dict_get_def tp8_conc16_def)
  have b: "dict_get tp2_conc32 ''tp'' (JNum 0) = JNum 2"
    "dict_get tp2_conc32 ''tput_per_gpu'' (JNum 0) = JNum 300"
    by (simp_all add: dict_get_def tp2_conc32_def)
  have rows: "b200_rows [tp8_conc16, tp2_conc32] =
     Inr [\<lparr>b_conc = JNum 16, b_tput = JNum 400, b_e2el = JNum 4, b_label = PerGPU (JNum 8)\<rparr>,
          \<lparr>b_conc = JNum 32, b_tput = JNum 600, b_e2el = JNum 6, b_label = Total (JNum 2)\<rparr>]"
    by (simp add: run_defs tp8_conc16_def tp2_conc32_def)
  from b200_throughput_rule [of tp8_conc16 8 400] a
  have 1: "\<exists>p. b200_row tp8_conc16 = Inr p \<and> b_tput p = JNum 400" by simp
  from b200_throughput_rule [of tp2_conc32 2 300] b
  have 2: "\<exists>p. b200_row tp2_conc32 = Inr p \<and> b_tput p = JNum 600" by simp
  from b200_throughput_rule [of tp8_conc16 8 400 "[tp8_conc16, tp2_conc32]"] rows
  have 3: "list_all2 (\<lambda>r p. b200_row r = Inr p) [tp8_conc16, tp2_conc32]
     [\<lparr>b_conc = JNum 16, b_tput = JNum 400, b_e2el = JNum 4, b_label = PerGPU (JNum 8)\<rparr>,
      \<lparr>b_conc = JNum 32, b_tput = JNum 600, b_e2el = JNum 6, b_label = Total (JNum 2)\<rparr>]"
    by blast
  from a b rows 1 2 3 show ?thesis by blast
qed

text \<open>
  C1, as the code has it.  A Series-A record with a concurrency other than 0 that passes
  the reliability filter is plotted with its aggregate throughput divided by 8 when the
  first record of the best list at the same concurrency has degree 8, and with its
  aggregate throughput unchanged otherwise: when that record has another degree, and
  also when the best list has no record at this concurrency.
\<close>

theorem baseten_throughput_rule:
  assumes "dict_get result ''concurrency'' (JNum 0) = c" and "c \<noteq> JNum 0"
    and "unreliable result = Inr False"
    and "dict_get result ''total_token_throughput'' (JNum 0) = JNum q"
    and "dict_get result ''median_e2el_ms'' (JNum 0) = JNum ms"
  shows "baseten_row b200_best result =
     Inr (Some \<lparr>a_conc = c,
                a_tput = JNum (case find (\<lambda>r. dict_get r ''conc'' (JNum 0) = c) b200_best of
                                 None \<Rightarrow> q
                               | Some r \<Rightarrow> if dict_get r ''tp'' (JNum 0) = JNum 8 then q / 8 else q),
                a_e2el = JNum (ms / 1000)\<rparr>)"
  using assms
  by (auto simp: baseten_row_def Let_def b200_tp_at_conc_find BASETEN_GPU_COUNT_def
           split: option.splits)

theorem baseten_throughput_rule_witness:
  "dict_get baseten_conc16 ''concurrency'' (JNum 0) = JNum 16 \<and>
   unreliable baseten_conc16 = Inr False \<and>
   dict_get baseten_conc16 ''total_token_throughput'' (JNum 0) = JNum 3200 \<and>
   dict_get baseten_conc16 ''median_e2el_ms'' (JNum 0) = JNum 2000 \<and>
   baseten_row [tp8_conc16] baseten_conc16 =
     Inr (Some \<lparr>a_conc = JNum 16, a_tput = JNum 400, a_e2el = JNum 2\<rparr>) \<and>
   baseten_row [tp2_conc16] baseten_conc16 =
     Inr (Some \<lparr>a_conc = JNum 16, a_tput = JNum 3200, a_e2el = JNum 2\<rparr>)"
proof -
  have c: "dict_get baseten_conc16 ''concurrency'' (JNum 0) = JNum 16"
    and q: "dict_get baseten_conc16 ''total_token_throughput'' (JNum 0) = JNum 3200"
    and ms: "dict_get baseten_conc16 ''median_e2el_ms'' (JNum 0) = JNum 2000"
    by (simp_all add: dict_get_def baseten_conc16_def run_with_field_def)
  have nz: "JNum 16 \<noteq> JNum 0" by simp
  have u: "unreliable baseten_conc16 = Inr False"
    by (simp add: unreliable_def dict_get_def py_gt_def baseten_conc16_def run_with_field_def)
  have 1: "baseten_row [tp8_conc16] baseten_conc16 =
     Inr (Some \<lparr>a_conc = JNum 16, a_tput = JNum 400, a_e2el = JNum 2\<rparr>)"
    using baseten_throughput_rule [OF c nz u q ms, of "[tp8_conc16]"]
    by (simp add: dict_get_def tp8_conc16_def)
  have 2: "baseten_row [tp2_conc16] baseten_conc16 =
     Inr (Some \<lparr>a_conc = JNum 16, a_tput = JNum 3200, a_e2el = JNum 2\<rparr>)"
    using baseten_throughput_rule [OF c nz u q ms, of "[tp2_conc16]"]
    by (simp add: dict_get_def tp2_conc16_def)
  from c u q ms 1 2 show ?thesis by simp
qed

text \<open>
  C1, as the claim has it, fails where Series B has no record at the concurrency: the
  record at concurrency 16 with aggregate throughput 3200 passes the filter and is
  plotted at 3200, not at 3200 / 8 = 400, both against a best list that only has
  concurrency 32 and against an empty one.
\<close>

theorem no_b200_record_keeps_total:
  "load_baseten_results [(''run_a'', Some run_with_field)] = Inr [baseten_conc16] \<and>
   load_b200_trt_results (Some [tp2_conc32]) = Inr ([tp2_conc32], [tp2_conc32]) \<and>
   dict_get baseten_conc16 ''concurrency'' (JNum 0) = JNum 16 \<and>
   dict_get tp2_conc32 ''conc'' (JNum 0) = JNum 32 \<and>
   unreliable baseten_conc16 = Inr False \<and>
   dict_get baseten_conc16 ''total_token_throughput'' (JNum 0) = JNum 3200 \<and>
   baseten_rows [tp2_conc32] [baseten_conc16] =
     Inr [\<lparr>a_conc = JNum 16, a_tput = JNum 3200, a_e2el = JNum 2\<rparr>] \<and>
   baseten_rows [] [baseten_conc16] =
     Inr [\<lparr>a_conc = JNum 16, a_tput = JNum 3200, a_e2el = JNum 2\<rparr>]"
  by (simp add: eval_defs baseten_conc16_def run_with_field_def tp2_conc32_def)

section \<open>The detailed chart\<close>

text \<open>
  C9, as the code has it.  The detailed chart plots every record of \<^verbatim>\<open>b200_all\<close>, and
  (when there is any) every record of the best list, at its \<^verbatim>\<open>tput_per_gpu\<close> as it is.
  For a best record with throughput \<open>q\<close> and a degree \<open>d\<close> other than 8 the clean chart
  plots \<open>q * d\<close>, so the two charts differ for this record exactly when \<open>q\<close> is not 0
  and \<open>d\<close> is not 1.
\<close>

theorem detailed_chart_rule:
  "(plot_comparison_with_all_b200_configs draw baseten_results b200_best b200_all = Inr chart \<longrightarrow>
      map d_tput (dc_all chart) = map (\<lambda>r. dict_get r ''tput_per_gpu'' (JNum 0)) b200_all \<and>
      (b200_all \<noteq> [] \<longrightarrow>
         map d_tput (dc_best chart) = map (\<lambda>r. dict_get r ''tput_per_gpu'' (JNum 0)) b200_best)) \<and>
   (dict_get r ''tp'' (JNum 0) = JNum d \<and> d \<noteq> 8 \<and>
    dict_get r ''tput_per_gpu'' (JNum 0) = JNum q \<longrightarrow>
      d_tput (detail_row r) = JNum q \<and>
      (\<exists>p. b200_row r = Inr p \<and> b_tput p = JNum (q * d) \<and>
           (b_tput p \<noteq> d_tput (detail_row r)) = (q \<noteq> 0 \<and> d \<noteq> 1)))"
proof (intro conjI impI)
  assume "plot_comparison_with_all_b200_configs draw baseten_results b200_best b200_all = Inr chart"
  then have c: "dc_all chart = map detail_row b200_all"
    "dc_best chart = (if map detail_row b200_all \<noteq> [] then map detail_row b200_best else [])"
    by (auto simp: plot_comparison_with_all_b200_configs_def Let_def split: sum.splits option.splits)
  show "map d_tput (dc_all chart) = map (\<lambda>r. dict_get r ''tput_per_gpu'' (JNum 0)) b200_all"
    by (simp add: c detail_row_def)
  assume "b200_all \<noteq> []"
  then show "map d_tput (dc_best chart) = map (\<lambda>r. dict_get r ''tput_per_gpu'' (JNum 0)) b200_best"
    by (simp add: c detail_row_def)
next
  assume a: "dict_get r ''tp'' (JNum 0) = JNum d \<and> d \<noteq> 8 \<and>
    dict_get r ''tput_per_gpu'' (JNum 0) = JNum q"
  then show "d_tput (detail_row r) = JNum q" by (simp add: detail_row_def)
  from a show "\<exists>p. b200_row r = Inr p \<and> b_tput p = JNum (q * d) \<and>
           (b_tput p \<noteq> d_tput (detail_row r)) = (q \<noteq> 0 \<and> d \<noteq> 1)"
    by (auto simp: b200_row_def detail_row_def)
qed

theorem detailed_chart_rule_witness:
  "plot_comparison_with_all_b200_configs drawn_detailed [] [tp2_conc32] [tp2_conc32, tp1_conc64] =
     Inr \<lparr>dc_all = [\<lparr>d_e2el = JNum 6, d_tput = JNum 300, d_conc = JNum 32, d_tp = JNum 2\<rparr>,
                    \<lparr>d_e2el = JNum 7, d_tput = JNum 300, d_conc = JNum 64, d_tp = JNum 1\<rparr>],
          dc_best = [\<lparr>d_e2el = JNum 6, d_tput = JNum 300, d_conc = JNum 32, d_tp = JNum 2\<rparr>],
          dc_baseten = []\<rparr> \<and>
   map (\<lambda>r. dict_get r ''tput_per_gpu'' (JNum 0)) [tp2_conc32, tp1_conc64] = [JNum 300, JNum 300] \<and>
   dict_get tp2_conc32 ''tp'' (JNum 0) = JNum 2 \<and>
   dict_get tp2_conc32 ''tput_per_gpu'' (JNum 0) = JNum 300 \<and>
   d_tput (detail_row tp2_conc32) = JNum 300 \<and>
   (\<exists>p. b200_row tp2_conc32 = Inr p \<and> b_tput p = JNum 600)"
proof -
  have run: "plot_comparison_with_all_b200_configs drawn_detailed [] [tp2_conc32] [tp2_conc32, tp1_conc64] =
     Inr \<lparr>dc_all = [\<lparr>d_e2el = JNum 6, d_tput = JNum 300, d_conc = JNum 32, d_tp = JNum 2\<rparr>,
                    \<lparr>d_e2el = JNum 7, d_tput = JNum 300, d_conc = JNum 64, d_tp = JNum 1\<rparr>],
          dc_best = [\<lparr>d_e2el = JNum 6, d_tput = JNum 300, d_conc = JNum 32, d_tp = JNum 2\<rparr>],
          dc_baseten = []\<rparr>"
    by (simp add: plot_comparison_with_all_b200_configs_def detail_row_def dict_get_def
          drawn_detailed_def tp2_conc32_def tp1_conc64_def)
  have a: "dict_get tp2_conc32 ''tp'' (JNum 0) = JNum 2"
    "dict_get tp2_conc32 ''tput_per_gpu'' (JNum 0) = JNum 300"
    by (simp_all add: dict_get_def tp2_conc32_def)
  have b: "dict_get tp1_conc64 ''tput_per_gpu'' (JNum 0) = JNum 300"
    by (simp add: dict_get_def tp1_conc64_def)
  from detailed_chart_rule [of drawn_detailed "[]" "[tp2_conc32]" "[tp2_conc32, tp1_conc64]" _ tp2_conc32 2 300]
    run a b
  have 1: "map (\<lambda>r. dict_get r ''tput_per_gpu'' (JNum 0)) [tp2_conc32, tp1_conc64] = [JNum 300, JNum 300]"
    and 2: "d_tput (detail_row tp2_conc32) = JNum 300"
    and 3: "\<exists>p. b200_row tp2_conc32 = Inr p \<and> b_tput p = JNum 600"
    by auto
  from run a 1 2 3 show ?thesis by blast
qed

text \<open>
  C9, as the claim has it, fails for degree 1: the best record at concurrency 64 with
  degree 1 and throughput 300 is plotted at 300 in the clean chart (300 times 1) and at
  300 in the detailed chart.
\<close>

theorem tp1_best_same_in_both_charts:
  "load_b200_trt_results (Some [tp1_conc64]) = Inr ([tp1_conc64], [tp1_conc64]) \<and>
   dict_get tp1_conc64 ''tp'' (JNum 0) = JNum 1 \<and>
   plot_comparison drawn_clean [] [tp1_conc64] [tp1_conc64] =
     Inr \<lparr>cc_b200 = [\<lparr>b_conc = JNum 64, b_tput = JNum 300, b_e2el = JNum 7, b_label = Total (JNum 1)\<rparr>],
          cc_baseten = []\<rparr> \<and>
   plot_comparison_with_all_b200_configs drawn_detailed [] [tp1_conc64] [tp1_conc64] =
     Inr \<lparr>dc_all = [\<lparr>d_e2el = JNum 7, d_tput = JNum 300, d_conc = JNum 64, d_tp = JNum 1\<rparr>],
          dc_best = [\<lparr>d_e2el = JNum 7, d_tput = JNum 300, d_conc = JNum 64, d_tp = JNum 1\<rparr>],
          dc_baseten = []\<rparr>"
  by (simp add: eval_defs drawn_clean_def drawn_detailed_def tp1_conc64_def)

section \<open>Loader A: the concurrency of a file\<close>

text \<open>
  C7.  The concurrency of a parsed file is its \<^verbatim>\<open>max_concurrency\<close> when the field holds
  a value (a JSON \<^verbatim>\<open>null\<close> counts as no value, as the test \<^verbatim>\<open>conc is None\<close> has it).
  Otherwise, when the stem reads \<open>pre\<close>, \<^verbatim>\<open>conc\<close>, a run of one or more digits that
  no digit follows, and \<open>post\<close>, and no place further left has \<^verbatim>\<open>conc\<close> followed by a
  digit, the concurrency is the number those digits write in base ten.  When the stem
  has \<^verbatim>\<open>conc\<close> followed by a digit nowhere, there is no concurrency.  So \<^verbatim>\<open>conc42\<close>
  and \<^verbatim>\<open>bench_conc42\<close> give 42, \<^verbatim>\<open>run_conc128_a\<close> gives 128, \<^verbatim>\<open>conc7_conc42\<close> gives
  7, and \<^verbatim>\<open>conc_42\<close> gives nothing.  The loader's output holds exactly the files that
  were read and have a concurrency, each with that concurrency stored under
  \<^verbatim>\<open>concurrency\<close>: a file without one adds nothing to the output.  The loader returns
  whenever the concurrencies are numbers.
\<close>

theorem concurrency_resolution:
  "(result ''max_concurrency'' = Some v \<and> v \<noteq> JNull \<longrightarrow> resolve_conc stem result = v) \<and>
   (dict_get result ''max_concurrency'' JNull = JNull \<and>
    ds \<noteq> [] \<and> set ds \<subseteq> set ''0123456789'' \<and> (post = [] \<or> hd post \<notin> set ''0123456789'') \<and>
    (\<forall>pre' d post'. pre @ ''conc'' @ ds @ post = pre' @ ''conc'' @ d # post' \<and>
                     d \<in> set ''0123456789'' \<longrightarrow> length pre \<le> length pre') \<longrightarrow>
      resolve_conc (pre @ ''conc'' @ ds @ post) result =
        JNum (of_int (\<Sum>i < length ds. (of_char (ds ! i) - 48) * 10 ^ (length ds - 1 - i)))) \<and>
   (dict_get result ''max_concurrency'' JNull = JNull \<and>
    \<not> (\<exists>pre d post. stem = pre @ ''conc'' @ d # post \<and> d \<in> set ''0123456789'') \<longrightarrow>
      resolve_conc stem result = JNull) \<and>
   resolve_conc ''conc42'' run_without_field = JNum 42 \<and>
   resolve_conc ''bench_conc42'' run_without_field = JNum 42 \<and>
   resolve_conc ''run_conc128_a'' run_without_field = JNum 128 \<and>
   resolve_conc ''conc7_conc42'' run_without_field = JNum 7 \<and>
   resolve_conc ''conc_42'' run_without_field = JNull \<and>
   (load_baseten_results files = Inr out \<longrightarrow>
      mset out =
      mset (concat (map (\<lambda>(stem, f). case f of
                           None \<Rightarrow> []
                         | Some result \<Rightarrow>
                             if resolve_conc stem result = JNull then []
                             else [result(''concurrency'' \<mapsto> resolve_conc stem result)]) files))) \<and>
   ((\<forall>x \<in> set (load_files files). \<exists>n. dict_get x ''concurrency'' (JNum 0) = JNum n) \<longrightarrow>
      (\<exists>out. load_baseten_results files = Inr out))"
proof (intro conjI impI)
  assume "result ''max_concurrency'' = Some v \<and> v \<noteq> JNull"
  then show "resolve_conc stem result = v" by (simp add: resolve_conc_def dict_get_def)
next
  assume a: "dict_get result ''max_concurrency'' JNull = JNull \<and>
    ds \<noteq> [] \<and> set ds \<subseteq> set ''0123456789'' \<and> (post = [] \<or> hd post \<notin> set ''0123456789'') \<and>
    (\<forall>pre' d post'. pre @ ''conc'' @ ds @ post = pre' @ ''conc'' @ d # post' \<and>
                     d \<in> set ''0123456789'' \<longrightarrow> length pre \<le> length pre')"
  note b = a [THEN conjunct2]
  note c = b [THEN conjunct2]
  note d = c [THEN conjunct2]
  have "re_search_conc (pre @ ''conc'' @ ds @ post) = Some ds"
    by (rule re_search_conc_first_match
          [OF b [THEN conjunct1] c [THEN conjunct1] d [THEN conjunct1] d [THEN conjunct2]])
  with a [THEN conjunct1]
  show "resolve_conc (pre @ ''conc'' @ ds @ post) result =
        JNum (of_int (\<Sum>i < length ds. (of_char (ds ! i) - 48) * 10 ^ (length ds - 1 - i)))"
    by (simp only: resolve_conc_def Let_def int_of_digits_sum simp_thms if_True option.case)
next
  assume a: "dict_get result ''max_concurrency'' JNull = JNull \<and>
    \<not> (\<exists>pre d post. stem = pre @ ''conc'' @ d # post \<and> d \<in> set ''0123456789'')"
  have "re_search_conc stem = None"
    by (rule re_search_conc_no_match [OF a [THEN conjunct2]])
  with a [THEN conjunct1] show "resolve_conc stem result = JNull"
    by (simp only: resolve_conc_def Let_def simp_thms if_True option.case)
next
  show "resolve_conc ''conc42'' run_without_field = JNum 42"
    by (simp add: resolve_conc_def dict_get_def match_conc_def is_digit_def int_of_digits_def
          run_without_field_def)
next
  show "resolve_conc ''bench_conc42'' run_without_field = JNum 42"
    by (simp add: resolve_conc_def dict_get_def match_conc_def is_digit_def int_of_digits_def
          run_without_field_def)
next
  show "resolve_conc ''run_conc128_a'' run_without_field = JNum 128"
    by (simp add: resolve_conc_def dict_get_def match_conc_def is_digit_def int_of_digits_def
          run_without_field_def)
next
  show "resolve_conc ''conc7_conc42'' run_without_field = JNum 7"
    by (simp add: resolve_conc_def dict_get_def match_conc_def is_digit_def int_of_digits_def
          run_without_field_def)
next
  show "resolve_conc ''conc_42'' run_without_field = JNull"
    by (simp add: resolve_conc_def dict_get_def match_conc_def is_digit_def int_of_digits_def
          run_without_field_def)
next
  assume "load_baseten_results files = Inr out"
  then show "mset out =
      mset (concat (map (\<lambda>(stem, f). case f of
                           None \<Rightarrow> []
                         | Some result \<Rightarrow>
                             if resolve_conc stem result = JNull then []
                             else [result(''concurrency'' \<mapsto> resolve_conc stem result)]) files))"
    unfolding load_baseten_results_def load_files_concat by (rule py_sorted_mset)
next
  assume "\<forall>x \<in> set (load_files files). \<exists>n. dict_get x ''concurrency'' (JNum 0) = JNum n"
  then show "\<exists>out. load_baseten_results files = Inr out"
    unfolding load_baseten_results_def by (rule py_sorted_returns)
qed

theorem concurrency_resolution_witness:
  "run_with_field ''max_concurrency'' = Some (JNum 16) \<and>
   resolve_conc ''run_a'' run_with_field = JNum 16 \<and>
   dict_get run_without_field ''max_concurrency'' JNull = JNull \<and>
   resolve_conc ''bench_conc42'' run_without_field = JNum 42 \<and>
   resolve_conc ''notes'' run_without_field = JNull \<and>
   load_baseten_results
     [(''bench_conc42'', Some run_without_field), (''notes'', Some run_without_field),
      (''broken'', None), (''run_a'', Some run_with_field)] =
     Inr [run_with_field(''concurrency'' \<mapsto> JNum 16),
          run_without_field(''concurrency'' \<mapsto> JNum 42)] \<and>
   mset [run_with_field(''concurrency'' \<mapsto> JNum 16),
         run_without_field(''concurrency'' \<mapsto> JNum 42)] =
   mset [run_without_field(''concurrency'' \<mapsto> JNum 42),
         run_with_field(''concurrency'' \<mapsto> JNum 16)]"
proof -
  let ?files = "[(''bench_conc42'', Some run_without_field), (''notes'', Some run_without_field),
      (''broken'', None), (''run_a'', Some run_with_field)]"
  let ?out = "[run_with_field(''concurrency'' \<mapsto> JNum 16),
               run_without_field(''concurrency'' \<mapsto> JNum 42)]"
  have f0: "run_with_field ''max_concurrency'' = Some (JNum 16)"
    by (simp add: run_with_field_def)
  then have f: "run_with_field ''max_concurrency'' = Some (JNum 16) \<and> JNum 16 \<noteq> JNull"
    by simp
  have n: "dict_get run_without_field ''max_concurrency'' JNull = JNull"
    by (simp add: dict_get_def run_without_field_def)
  from concurrency_resolution
    [where result = run_with_field and v = "JNum 16" and stem = "''run_a''",
     THEN conjunct1, THEN mp, OF f]
  have 1: "resolve_conc ''run_a'' run_with_field = JNum 16" .
  have search: "\<forall>k < length ''bench_''. match_conc (drop k ''bench_conc42'') = None"
    by (simp add: less_Suc_eq match_conc_def all_conj_distrib)
  have left: "\<forall>pre' d post'. ''bench_'' @ ''conc'' @ ''42'' @ [] = pre' @ ''conc'' @ d # post' \<and>
                     d \<in> set ''0123456789'' \<longrightarrow> length ''bench_'' \<le> length pre'"
  proof (intro allI impI)
    fix pre' d post'
    assume e: "''bench_'' @ ''conc'' @ ''42'' @ [] = pre' @ ''conc'' @ d # post' \<and>
               d \<in> set ''0123456789''"
    from e [THEN conjunct1] have "''bench_conc42'' = pre' @ ''conc'' @ d # post'" by simp
    moreover from e [THEN conjunct2] have "is_digit d" unfolding is_digit_def .
    ultimately show "length ''bench_'' \<le> length pre'" by (rule leftmost_by_search [OF search])
  qed
  have digits: "''42'' \<noteq> []" "set ''42'' \<subseteq> set ''0123456789''"
    "[] = ([] :: string) \<or> hd ([] :: string) \<notin> set ''0123456789''"
    by simp_all
  from concurrency_resolution
    [where result = run_without_field and ds = "''42''" and post = "[]" and pre = "''bench_''",
     THEN conjunct2, THEN conjunct1, THEN mp,
     OF conjI [OF n conjI [OF digits(1) conjI [OF digits(2) conjI [OF digits(3) left]]]]]
  have "resolve_conc (''bench_'' @ ''conc'' @ ''42'' @ []) run_without_field =
        JNum (of_int (\<Sum>i < length ''42''. (of_char (''42'' ! i) - 48) * 10 ^ (length ''42'' - 1 - i)))" .
  then have 2: "resolve_conc ''bench_conc42'' run_without_field = JNum 42"
    by (simp add: lessThan_Suc)
  have "CHR ''c'' \<notin> set ''notes''" by simp
  from concurrency_resolution
    [where result = run_without_field and stem = "''notes''",
     THEN conjunct2, THEN conjunct2, THEN conjunct1, THEN mp,
     OF conjI [OF n no_c_no_match [OF this]]]
  have 3: "resolve_conc ''notes'' run_without_field = JNull" .
  have 5: "load_baseten_results ?files = Inr ?out"
    by (simp add: load_baseten_results_def 1 2 3 dict_get_def)
  from concurrency_resolution
    [where files = ?files and out = ?out,
     THEN conjunct2, THEN conjunct2, THEN conjunct2, THEN conjunct2, THEN conjunct2,
     THEN conjunct2, THEN conjunct2, THEN conjunct2, THEN conjunct1, THEN mp, OF 5]
  have 6: "mset ?out = mset [run_without_field(''concurrency'' \<mapsto> JNum 42),
         run_with_field(''concurrency'' \<mapsto> JNum 16)]"
    by (simp add: 1 2 3)
  from f0 n 1 2 3 5 6 show ?thesis by blast
qed

section \<open>The exit status\<close>

text \<open>
  C6, as the code has it.  The process exits with status 0 exactly when three arguments
  are there, both paths exist, both loaders return, each with at least one record, and
  neither chart function raises; in every other case it exits with status 1.  Loader A
  returns no record exactly when no file of the directory is read with a concurrency,
  and Loader B no best record exactly when no record of the array passes the hardware
  filter.  The reliability filter runs later, inside the chart functions, and is no
  part of the test.
\<close>

theorem exit_status_rule:
  "exit_status (main draw_clean draw_detailed fs argv) =
     (if 3 \<le> length argv \<and> fs (argv ! 1) \<noteq> Missing \<and> fs (argv ! 2) \<noteq> Missing \<and>
         (\<exists>baseten_results b200_best b200_all.
            load_baseten_results (glob_json (fs (argv ! 1))) = Inr baseten_results \<and>
            baseten_results \<noteq> [] \<and>
            load_b200_trt_results (read_json (fs (argv ! 2))) = Inr (b200_best, b200_all) \<and>
            b200_best \<noteq> [] \<and>
            (\<exists>chart. plot_comparison draw_clean baseten_results b200_best b200_all = Inr chart) \<and>
            (\<exists>chart. plot_comparison_with_all_b200_configs draw_detailed
                        baseten_results b200_best b200_all = Inr chart))
      then 0 else 1) \<and>
   (load_baseten_results files = Inr baseten_results \<longrightarrow>
      (baseten_results = []) = (load_files files = [])) \<and>
   (load_b200_trt_results (Some all_data) = Inr (b200_best, b200_all) \<longrightarrow>
      b200_all = filter is_b200_trt all_data \<and> (b200_best = []) = (b200_all = []))"
proof (intro conjI impI)
  show "exit_status (main draw_clean draw_detailed fs argv) =
     (if 3 \<le> length argv \<and> fs (argv ! 1) \<noteq> Missing \<and> fs (argv ! 2) \<noteq> Missing \<and>
         (\<exists>baseten_results b200_best b200_all.
            load_baseten_results (glob_json (fs (argv ! 1))) = Inr baseten_results \<and>
            baseten_results \<noteq> [] \<and>
            load_b200_trt_results (read_json (fs (argv ! 2))) = Inr (b200_best, b200_all) \<and>
            b200_best \<noteq> [] \<and>
            (\<exists>chart. plot_comparison draw_clean baseten_results b200_best b200_all = Inr chart) \<and>
            (\<exists>chart. plot_comparison_with_all_b200_configs draw_detailed
                        baseten_results b200_best b200_all = Inr chart))
      then 0 else 1)"
    by (auto simp: main_def Let_def split: sum.splits prod.splits)
next
  assume "load_baseten_results files = Inr baseten_results"
  then show "(baseten_results = []) = (load_files files = [])"
    using py_sorted_length [of _ "load_files files" baseten_results]
    by (auto simp: load_baseten_results_def)
next
  assume a: "load_b200_trt_results (Some all_data) = Inr (b200_best, b200_all)"
  from best_empty_iff [OF a] show "b200_all = filter is_b200_trt all_data" by simp
  from best_empty_iff [OF a] show "(b200_best = []) = (b200_all = [])" by simp
qed

theorem exit_status_rule_witness:
  "exit_status (main drawn_clean drawn_detailed fs_good argv_example) = 0 \<and>
   exit_status (main drawn_clean drawn_detailed fs_good [''plot_baseten_vs_b200.py'', ''results'']) = 1 \<and>
   exit_status (main drawn_clean drawn_detailed fs_good
                  [''plot_baseten_vs_b200.py'', ''results'', ''nowhere.json'']) = 1 \<and>
   load_baseten_results [(''run_a'', Some run_with_field)] =
     Inr [run_with_field(''concurrency'' \<mapsto> JNum 16)] \<and>
   load_files [(''run_a'', Some run_with_field)] \<noteq> [] \<and>
   load_b200_trt_results (Some [h100_conc16]) = Inr ([], []) \<and>
   filter is_b200_trt [h100_conc16] = []"
proof -
  have a: "load_baseten_results [(''run_a'', Some run_with_field)] =
     Inr [run_with_field(''concurrency'' \<mapsto> JNum 16)]"
    by (simp add: main_def eval_defs run_with_field_def)
  have b: "load_b200_trt_results (Some [h100_conc16]) = Inr ([], [])"
    by (simp add: main_def eval_defs h100_conc16_def)
  from exit_status_rule [of drawn_clean drawn_detailed fs_good argv_example]
  have 1: "exit_status (main drawn_clean drawn_detailed fs_good argv_example) = 0"
    by (simp add: main_def eval_defs fs_good_def argv_example_def drawn_clean_def drawn_detailed_def
          run_with_field_def tp8_conc16_def)
  from exit_status_rule [of drawn_clean drawn_detailed fs_good "[''plot_baseten_vs_b200.py'', ''results'']"]
  have 2: "exit_status (main drawn_clean drawn_detailed fs_good
             [''plot_baseten_vs_b200.py'', ''results'']) = 1"
    by simp
  from exit_status_rule [of drawn_clean drawn_detailed fs_good
      "[''plot_baseten_vs_b200.py'', ''results'', ''nowhere.json'']"]
  have 3: "exit_status (main drawn_clean drawn_detailed fs_good
             [''plot_baseten_vs_b200.py'', ''results'', ''nowhere.json'']) = 1"
    by (simp add: fs_good_def)
  from exit_status_rule [of _ _ _ _ "[(''run_a'', Some run_with_field)]"
      "[run_with_field(''concurrency'' \<mapsto> JNum 16)]"] a
  have 4: "load_files [(''run_a'', Some run_with_field)] \<noteq> []" by simp
  from exit_status_rule [of _ _ _ _ _ _ "[h100_conc16]" "[]" "[]"] b
  have 5: "filter is_b200_trt [h100_conc16] = []" by simp
  from a b 1 2 3 4 5 show ?thesis by blast
qed

text \<open>
  C6, as the claim has it, fails: when the only Series-A record has 5 completed requests
  of 100, the reliability filter leaves Series A without a usable record, and yet
  \<^verbatim>\<open>main\<close> returns and the process exits with status 0.
\<close>

theorem unreliable_only_still_exits_0:
  "load_baseten_results (glob_json (fs_low_completion ''results'')) =
     Inr [run_low_completion(''concurrency'' \<mapsto> JNum 16)] \<and>
   load_b200_trt_results (read_json (fs_low_completion ''agg.json'')) =
     Inr ([tp8_conc16], [tp8_conc16]) \<and>
   unreliable (run_low_completion(''concurrency'' \<mapsto> JNum 16)) = Inr True \<and>
   baseten_rows [tp8_conc16] [run_low_completion(''concurrency'' \<mapsto> JNum 16)] = Inr [] \<and>
   main drawn_clean drawn_detailed fs_low_completion argv_example = Returned \<and>
   exit_status (main drawn_clean drawn_detailed fs_low_completion argv_example) = 0"
  by (simp add: main_def eval_defs fs_low_completion_def argv_example_def drawn_clean_def
        drawn_detailed_def run_low_completion_def tp8_conc16_def)

end
